theory Spec2Isabelle
  imports Main "HOL-Library.List_Lexorder" "HOL-Library.Sublist" "HOL-Library.Multiset"
begin

section \<open>Python strings and the string operations the script calls\<close>

text \<open>
  A Python \<^verbatim>\<open>str\<close> is a sequence of Unicode code points. It is modelled as a list of
  natural numbers, one per code point, so that the em-dash (U+2014, code point 8212) is a
  single character, as it is for Python. ASCII literals of the source are written with
  \<open>ascii\<close>, which maps every character of an Isabelle string to its code point.
\<close>

type_synonym codepoint = nat
type_synonym pystr = "codepoint list"

definition ascii :: "string \<Rightarrow> pystr" where
  "ascii s = map of_char s"

text \<open>
  \<^verbatim>\<open>re.sub(r'[\\/*?:"<>|]', "", name)\<close>: the pattern is one character class. The raw
  string \<^verbatim>\<open>\\\<close> inside the class is an escaped backslash, so the class holds the nine
  characters \<^verbatim>\<open>\ / * ? : " < > |\<close>, here by code point. \<open>re_sub_class cls repl s\<close>
  is \<^verbatim>\<open>re.sub\<close> for a pattern that is a single class: scanning from the left, every
  character of the class is a match and is replaced by \<open>repl\<close>; every other character is
  copied.
\<close>

definition illegal_chars :: "codepoint list" where
  "illegal_chars = [92, 47, 42, 63, 58, 34, 60, 62, 124]"

fun re_sub_class :: "codepoint list \<Rightarrow> pystr \<Rightarrow> pystr \<Rightarrow> pystr" where
  "re_sub_class cls repl [] = []"
| "re_sub_class cls repl (c # cs) =
     (if c \<in> set cls then repl @ re_sub_class cls repl cs
      else c # re_sub_class cls repl cs)"

definition sanitize_name :: "pystr \<Rightarrow> pystr" where
  "sanitize_name nm = re_sub_class illegal_chars [] nm"

text \<open>\<^verbatim>\<open>sub in s\<close> on strings: \<open>sub\<close> occurs in \<open>s\<close> as a contiguous substring.\<close>

fun py_in :: "pystr \<Rightarrow> pystr \<Rightarrow> bool" where
  "py_in sub [] = (sub = [])"
| "py_in sub (c # cs) = (prefix sub (c # cs) \<or> py_in sub cs)"

text \<open>
  \<^verbatim>\<open>s.split(sep)\<close> for a non-empty separator (Python raises \<^verbatim>\<open>ValueError\<close> on an empty
  one; the script only ever passes the three-character separator). The string is scanned
  from the left; at an occurrence of \<open>sep\<close> the current segment ends and the scan resumes
  after the occurrence, so occurrences never overlap. The result always has at least one
  segment.
\<close>

function py_split :: "pystr \<Rightarrow> pystr \<Rightarrow> pystr list" where
  "py_split sep [] = [[]]"
| "py_split sep (c # cs) =
     (if sep \<noteq> [] \<and> prefix sep (c # cs)
      then [] # py_split sep (drop (length sep) (c # cs))
      else (case py_split sep cs of
              [] \<Rightarrow> [[c]]
            | seg # segs \<Rightarrow> (c # seg) # segs))"
  by pat_completeness auto
termination
  by (relation "measure (\<lambda>(sep, s). length s)") (auto simp: Suc_le_eq)

text \<open>\<^verbatim>\<open>s.replace(old, new)\<close> for single characters \<open>old\<close> and \<open>new\<close>.\<close>

definition py_replace :: "codepoint \<Rightarrow> codepoint \<Rightarrow> pystr \<Rightarrow> pystr" where
  "py_replace old new s = map (\<lambda>c. if c = old then new else c) s"

text \<open>\<^verbatim>\<open>sep.join(xs)\<close>.\<close>

fun py_join :: "pystr \<Rightarrow> pystr list \<Rightarrow> pystr" where
  "py_join sep [] = []"
| "py_join sep [x] = x"
| "py_join sep (x # y # ys) = x @ sep @ py_join sep (y # ys)"

text \<open>
  Exceptions of the script are values. \<open>OSError\<close> stands for the file-system errors
  (\<^verbatim>\<open>FileExistsError\<close>, \<^verbatim>\<open>NotADirectoryError\<close>, \<^verbatim>\<open>IsADirectoryError\<close>,
  \<^verbatim>\<open>FileNotFoundError\<close> are its subclasses).
\<close>

datatype py_error = IndexError | OSError | JSONDecodeError

text \<open>\<^verbatim>\<open>xs[i]\<close> for a non-negative index: out of range raises \<^verbatim>\<open>IndexError\<close>.\<close>

definition py_index :: "'a list \<Rightarrow> nat \<Rightarrow> py_error + 'a" where
  "py_index xs i = (if i < length xs then Inr (xs ! i) else Inl IndexError)"

text \<open>
  \<^verbatim>\<open>d.get(key, default)\<close>: a field of a record that may be absent is an \<open>option\<close>.
\<close>

definition dict_get :: "'a option \<Rightarrow> 'a \<Rightarrow> 'a" where
  "dict_get v dflt = (case v of None \<Rightarrow> dflt | Some x \<Rightarrow> x)"

text \<open>
  \<^verbatim>\<open>list(set(xs))\<close>: the elements of \<open>xs\<close> without repetition, in an order Python does
  not specify. The model fixes one order (first occurrences); the script sorts the list
  before it uses it, and \<open>sort_list_set_any_order\<close> below shows that the sorted list is the
  same for every order.
\<close>

definition py_list_set :: "'a list \<Rightarrow> 'a list" where
  "py_list_set xs = remdups xs"

text \<open>
  \<^verbatim>\<open>os.path.join(a, *p)\<close> as \<^verbatim>\<open>posixpath\<close> defines it: a component that starts with
  \<^verbatim>\<open>/\<close> (code point 47) replaces the path so far; otherwise it is appended, after a
  \<^verbatim>\<open>/\<close> unless the path so far is empty or already ends with one.
\<close>

definition join_step :: "pystr \<Rightarrow> pystr \<Rightarrow> pystr" where
  "join_step path b =
     (if prefix [47] b then b
      else if path = [] \<or> last path = 47 then path @ b
      else path @ [47] @ b)"

definition os_path_join :: "pystr \<Rightarrow> pystr list \<Rightarrow> pystr" where
  "os_path_join a p = foldl join_step a p"

section \<open>Card records\<close>

text \<open>
  A card record is an open-ended JSON object. The script reads four of its fields, each
  of which may be absent; they are typed as the data model types them (\<^verbatim>\<open>name\<close> and
  \<^verbatim>\<open>type_line\<close> strings, \<^verbatim>\<open>colors\<close> a list of strings, \<^verbatim>\<open>card_faces\<close> a list of
  objects with an optional \<^verbatim>\<open>colors\<close> list). All other fields are the \<open>more\<close> part of
  the extensible records, which the script never looks at.
\<close>

record face =
  face_colors :: "pystr list option"

record 'f card =
  name :: "pystr option"
  colors :: "pystr list option"
  card_faces :: "'f list option"
  type_line :: "pystr option"

section \<open>The classifier\<close>

text \<open>
  Step 1 of the loop body.
  \<^verbatim>\<open>
  colors_list = card.get('colors', [])
  if not colors_list and 'card_faces' in card:
      colors_list = list(set(c for face in card['card_faces'] for c in face.get('colors', [])))
  color_folder = "".join(sorted(colors_list)) if colors_list else "Colorless"
  \<close>
  \<^verbatim>\<open>sorted\<close> on strings orders them lexicographically by code point, which is the order
  of \<open>pystr\<close> here.
\<close>

definition face_colors_all :: "('x face_scheme) list \<Rightarrow> pystr list" where
  "face_colors_all faces = concat (map (\<lambda>fc. dict_get (face_colors fc) []) faces)"

definition colors_list :: "('x face_scheme, 'm) card_scheme \<Rightarrow> pystr list" where
  "colors_list c =
     (let cl = dict_get (colors c) [] in
      if cl = []
      then (case card_faces c of
              None \<Rightarrow> cl
            | Some faces \<Rightarrow> py_list_set (face_colors_all faces))
      else cl)"

definition color_folder :: "('x face_scheme, 'm) card_scheme \<Rightarrow> pystr" where
  "color_folder c =
     (let cl = colors_list c in
      if cl \<noteq> [] then py_join [] (sort cl) else ascii ''Colorless'')"

text \<open>
  Step 2.
  \<^verbatim>\<open>
  type_line = card.get('type_line', '')
  super_type_list = ["Basic", "Legendary", "Snow", "World", "Ongoing", "Elite"]
  found_supers = [s for s in super_type_list if s in type_line]
  super_type_folder = " ".join(found_supers) if found_supers else "Normal"
  \<close>
\<close>

definition super_type_list :: "pystr list" where
  "super_type_list =
     [ascii ''Basic'', ascii ''Legendary'', ascii ''Snow'', ascii ''World'',
      ascii ''Ongoing'', ascii ''Elite'']"

definition found_supers :: "('f, 'm) card_scheme \<Rightarrow> pystr list" where
  "found_supers c = filter (\<lambda>s. py_in s (dict_get (type_line c) [])) super_type_list"

definition super_type_folder :: "('f, 'm) card_scheme \<Rightarrow> pystr" where
  "super_type_folder c =
     (if found_supers c \<noteq> [] then py_join (ascii '' '') (found_supers c)
      else ascii ''Normal'')"

text \<open>
  Step 3. The separator is space, em-dash (U+2014), space.
  \<^verbatim>\<open>
  if " <U+2014> " in type_line:
      sub_type_part = type_line.split(" <U+2014> ")[1]
      sub_type_folder = sanitize_name(sub_type_part.replace(" ", "_"))
  else:
      sub_type_folder = "No_Subtype"
  \<close>
  (\<^verbatim>\<open><U+2014>\<close> stands for the em-dash character of the source.) The index access is
  a branch of its own: were it out of range, the result would be \<open>Inl IndexError\<close>.
\<close>

definition em_dash_sep :: pystr where
  "em_dash_sep = [32, 8212, 32]"

definition sub_type_folder :: "('f, 'm) card_scheme \<Rightarrow> py_error + pystr" where
  "sub_type_folder c =
     (let tline = dict_get (type_line c) [] in
      if py_in em_dash_sep tline
      then (case py_index (py_split em_dash_sep tline) 1 of
              Inl e \<Rightarrow> Inl e
            | Inr sub_type_part \<Rightarrow> Inr (sanitize_name (py_replace 32 95 sub_type_part)))
      else Inr (ascii ''No_Subtype''))"

text \<open>
  Steps 4 and 5, the names.
  \<^verbatim>\<open>
  target_dir = os.path.join(output_root, color_folder, super_type_folder, sub_type_folder)
  card_name = sanitize_name(card.get('name', 'Unknown_Card'))
  file_path = os.path.join(target_dir, f"{card_name}.json")
  \<close>
\<close>

definition target_dir :: "pystr \<Rightarrow> ('x face_scheme, 'm) card_scheme \<Rightarrow> py_error + pystr" where
  "target_dir output_root c =
     (case sub_type_folder c of
        Inl e \<Rightarrow> Inl e
      | Inr sub \<Rightarrow> Inr (os_path_join output_root [color_folder c, super_type_folder c, sub]))"

definition card_name :: "('f, 'm) card_scheme \<Rightarrow> pystr" where
  "card_name c = sanitize_name (dict_get (name c) (ascii ''Unknown_Card''))"

definition file_name :: "('f, 'm) card_scheme \<Rightarrow> pystr" where
  "file_name c = card_name c @ ascii ''.json''"

definition file_path :: "pystr \<Rightarrow> ('x face_scheme, 'm) card_scheme \<Rightarrow> py_error + pystr" where
  "file_path output_root c =
     (case target_dir output_root c of
        Inl e \<Rightarrow> Inl e
      | Inr d \<Rightarrow> Inr (os_path_join d [file_name c]))"

section \<open>The file system and the writer\<close>

text \<open>
  The script's effects are on the file tree and on standard output. The state is a record
  of the directories that exist, the regular files with their contents, and the lines
  printed so far. Paths are the strings the script passes to the operating system; the
  model compares them as strings and does not resolve \<^verbatim>\<open>.\<close>, \<^verbatim>\<open>..\<close>, repeated
  slashes or links. The file system is ideal otherwise: it has room and grants permission,
  so an operation fails only when a directory is needed where a regular file is, or the
  reverse.
\<close>

record world =
  dirs :: "pystr set"
  files :: "pystr \<rightharpoonup> pystr"
  stdout :: "pystr list"

definition py_print :: "pystr \<Rightarrow> 'w world_scheme \<Rightarrow> 'w world_scheme" where
  "py_print line w = w\<lparr>stdout := stdout w @ [line]\<rparr>"

text \<open>\<^verbatim>\<open>os.path.exists(p)\<close>.\<close>

definition path_exists :: "pystr \<Rightarrow> 'w world_scheme \<Rightarrow> bool" where
  "path_exists p w = (p \<in> dirs w \<or> files w p \<noteq> None)"

text \<open>
  The path itself and every non-empty proper prefix of it that ends just before a
  \<^verbatim>\<open>/\<close>: the directories \<^verbatim>\<open>os.makedirs\<close> has to find or create, outermost first.
\<close>

fun dir_chain_from :: "pystr \<Rightarrow> pystr \<Rightarrow> pystr list" where
  "dir_chain_from acc [] = [acc]"
| "dir_chain_from acc (c # cs) =
     (if c = 47 \<and> acc \<noteq> [] then acc # dir_chain_from (acc @ [c]) cs
      else dir_chain_from (acc @ [c]) cs)"

definition dir_chain :: "pystr \<Rightarrow> pystr list" where
  "dir_chain p = dir_chain_from [] p"

text \<open>
  \<^verbatim>\<open>os.makedirs(p, exist_ok=True)\<close>: afterwards \<open>p\<close> and its ancestors are directories.
  It raises when \<open>p\<close> is empty or one of them exists as a regular file; an error carries
  the state at the raise.
\<close>

definition makedirs :: "pystr \<Rightarrow> 'w world_scheme \<Rightarrow> (py_error \<times> 'w world_scheme) + 'w world_scheme" where
  "makedirs p w =
     (if p = [] \<or> (\<exists>d \<in> set (dir_chain p). files w d \<noteq> None) then Inl (OSError, w)
      else Inr (w\<lparr>dirs := dirs w \<union> set (dir_chain p)\<rparr>))"

text \<open>
  \<^verbatim>\<open>with open(p, 'w', encoding='utf-8') as f: f.write(txt)\<close>: the file is created or
  truncated and holds \<open>txt\<close> afterwards. Opening a directory for writing raises. (The
  script opens a file only inside the directory it has just made.)
\<close>

definition write_file :: "pystr \<Rightarrow> pystr \<Rightarrow> 'w world_scheme \<Rightarrow> (py_error \<times> 'w world_scheme) + 'w world_scheme" where
  "write_file p txt w =
     (if p \<in> dirs w then Inl (OSError, w)
      else Inr (w\<lparr>files := (files w)(p \<mapsto> txt)\<rparr>))"

text \<open>\<^verbatim>\<open>with open(p, 'r', encoding='utf-8') as f: f.read()\<close>.\<close>

definition read_file :: "pystr \<Rightarrow> 'w world_scheme \<Rightarrow> (py_error \<times> 'w world_scheme) + pystr" where
  "read_file p w =
     (if p \<in> dirs w then Inl (OSError, w)
      else (case files w p of None \<Rightarrow> Inl (OSError, w) | Some txt \<Rightarrow> Inr txt))"

text \<open>
  The loop body for one card. \<^verbatim>\<open>json.dump\<close> is the standard library's; the model takes
  the serializer as the parameter \<open>dumps\<close> (the record and the indent to the text), so
  every theorem holds for whatever text the library produces.
  \<^verbatim>\<open>
  os.makedirs(target_dir, exist_ok=True)
  with open(file_path, 'w', encoding='utf-8') as out_f:
      json.dump(card, out_f, indent=4)
  \<close>
\<close>

definition write_card ::
  "(('x face_scheme, 'm) card_scheme \<Rightarrow> nat \<Rightarrow> pystr) \<Rightarrow> pystr \<Rightarrow>
   ('x face_scheme, 'm) card_scheme \<Rightarrow> 'w world_scheme \<Rightarrow>
   (py_error \<times> 'w world_scheme) + 'w world_scheme" where
  "write_card dumps output_root c w =
     (case target_dir output_root c of
        Inl e \<Rightarrow> Inl (e, w)
      | Inr d \<Rightarrow>
          (case makedirs d w of
             Inl ew \<Rightarrow> Inl ew
           | Inr w1 \<Rightarrow> write_file (os_path_join d [file_name c]) (dumps c 4) w1))"

text \<open>\<^verbatim>\<open>for card in cards: ...\<close>: the first exception ends the run.\<close>

fun process_cards ::
  "(('x face_scheme, 'm) card_scheme \<Rightarrow> nat \<Rightarrow> pystr) \<Rightarrow> pystr \<Rightarrow>
   ('x face_scheme, 'm) card_scheme list \<Rightarrow> 'w world_scheme \<Rightarrow>
   (py_error \<times> 'w world_scheme) + 'w world_scheme" where
  "process_cards dumps output_root [] w = Inr w"
| "process_cards dumps output_root (c # cs) w =
     (case write_card dumps output_root c w of
        Inl ew \<Rightarrow> Inl ew
      | Inr w1 \<Rightarrow> process_cards dumps output_root cs w1)"

text \<open>
  The entry point. \<^verbatim>\<open>json.load\<close> and \<^verbatim>\<open>os.path.abspath\<close> are parameters as well:
  \<open>loads\<close> parses the text of the input file into the list of card records or raises.
  A normal return is \<open>Inr\<close> of the final state, an exception that leaves the function is
  \<open>Inl\<close> of the exception and the state it leaves behind. (Called without arguments, as
  the script's last line does, the function gets \<^verbatim>\<open>oracle-cards.json\<close> and
  \<^verbatim>\<open>Scryfall_Organized\<close> for its two paths.)
\<close>

definition missing_message :: "pystr \<Rightarrow> pystr" where
  "missing_message input_file =
     ascii ''Error: '' @ input_file @
     ascii '' not found. Please ensure it is in the root directory.''"

definition organize_scryfall_data ::
  "(pystr \<Rightarrow> py_error + ('x face_scheme, 'm) card_scheme list) \<Rightarrow>
   (('x face_scheme, 'm) card_scheme \<Rightarrow> nat \<Rightarrow> pystr) \<Rightarrow> (pystr \<Rightarrow> pystr) \<Rightarrow>
   pystr \<Rightarrow> pystr \<Rightarrow> 'w world_scheme \<Rightarrow>
   (py_error \<times> 'w world_scheme) + 'w world_scheme" where
  "organize_scryfall_data loads dumps abspath input_file output_root w =
     (if \<not> path_exists input_file w then Inr (py_print (missing_message input_file) w)
      else
        let w1 = py_print (ascii ''Reading dataset... this may take a moment.'') w in
        (case read_file input_file w1 of
           Inl ew \<Rightarrow> Inl ew
         | Inr txt \<Rightarrow>
             (case loads txt of
                Inl e \<Rightarrow> Inl (e, w1)
              | Inr cards \<Rightarrow>
                  (case process_cards dumps output_root cards w1 of
                     Inl ew \<Rightarrow> Inl ew
                   | Inr w2 \<Rightarrow>
                       Inr (py_print (ascii ''Success! Data organized into: '' @ abspath output_root) w2)))))"

section \<open>Notions the specification uses\<close>

text \<open>
  \<open>first_occurrence sep s pre post\<close>: the string \<open>s\<close> is \<open>pre\<close>, then \<open>sep\<close>, then
  \<open>post\<close>, and \<open>sep\<close> occurs nowhere in \<open>s\<close> at an earlier position. So \<open>pre\<close> is the
  text before the first occurrence of the separator and \<open>post\<close> everything after it.
\<close>

definition first_occurrence :: "pystr \<Rightarrow> pystr \<Rightarrow> pystr \<Rightarrow> pystr \<Rightarrow> bool" where
  "first_occurrence sep s pre post \<longleftrightarrow>
     s = pre @ sep @ post \<and> \<not> sublist sep (pre @ butlast sep)"

text \<open>
  The sub-type folder in the specification's words: everything after the first occurrence
  of the separator, every space replaced by an underscore, sanitized; \<^verbatim>\<open>No_Subtype\<close>
  when the separator is absent.
\<close>

fun after_first :: "pystr \<Rightarrow> pystr \<Rightarrow> pystr" where
  "after_first sep [] = []"
| "after_first sep (c # cs) =
     (if prefix sep (c # cs) then drop (length sep) (c # cs) else after_first sep cs)"

definition spec_sub_type_folder :: "pystr \<Rightarrow> pystr" where
  "spec_sub_type_folder tline =
     (if sublist em_dash_sep tline
      then sanitize_name (py_replace 32 95 (after_first em_dash_sep tline))
      else ascii ''No_Subtype'')"

text \<open>
  The color folder in the specification's words: the letters of the list, deduplicated as
  by a set, sorted, concatenated.
\<close>

definition spec_color_letters :: "pystr list \<Rightarrow> pystr" where
  "spec_color_letters cs = concat (sorted_list_of_set (set cs))"



section \<open>Facts about the string operations\<close>

lemma re_sub_class_empty_filter:
  "re_sub_class cls [] s = filter (\<lambda>c. c \<notin> set cls) s"
  by (induction s) auto

lemma py_in_iff_sublist: "py_in sub s \<longleftrightarrow> sublist sub s"
  by (induction s) (auto simp: sublist_Cons_right)

lemma py_split_not_Nil: "py_split sep s \<noteq> []"
  by (induction sep s rule: py_split.induct) (auto split: list.splits)

lemma py_split_length_ge2:
  "sep \<noteq> [] \<Longrightarrow> py_in sep s \<Longrightarrow> 2 \<le> length (py_split sep s)"
proof (induction sep s rule: py_split.induct)
  case (1 sep)
  then show ?case by simp
next
  case (2 sep c cs)
  show ?case
  proof (cases "prefix sep (c # cs)")
    case True
    with "2.prems" have "py_split sep (c # cs) = [] # py_split sep (drop (length sep) (c # cs))"
      by simp
    moreover have "py_split sep (drop (length sep) (c # cs)) \<noteq> []"
      by (rule py_split_not_Nil)
    ultimately show ?thesis
      by (cases "py_split sep (drop (length sep) (c # cs))") auto
  next
    case False
    with "2.prems" have "py_in sep cs" by simp
    with "2.IH"(2) False "2.prems" have "2 \<le> length (py_split sep cs)" by simp
    with False show ?thesis
      by (auto split: list.splits)
  qed
qed

lemma py_split_absent:
  "\<not> sublist sep s \<Longrightarrow> py_split sep s = [s]"
proof (induction s)
  case Nil
  then show ?case by simp
next
  case (Cons c cs)
  then have "\<not> prefix sep (c # cs)" "\<not> sublist sep cs"
    by (auto simp: sublist_Cons_right)
  with Cons.IH show ?case by simp
qed

lemma prefix_of_longer_append:
  assumes "prefix sep (pre @ sep @ rest)" "pre \<noteq> []"
  shows "prefix sep (pre @ butlast sep)"
proof -
  have len: "length sep \<le> length (pre @ butlast sep)"
    using assms(2) by (cases pre) auto
  have "take (length sep) (pre @ sep @ rest) = sep"
    using assms(1) by (metis append_eq_conv_conj prefixE)
  moreover have "take (length sep) (pre @ sep @ rest) = take (length sep) (pre @ butlast sep)"
  proof (cases "sep = []")
    case True
    then show ?thesis by simp
  next
    case False
    with assms(2) have "length sep - length pre < length sep"
      by (cases pre) auto
    then show ?thesis by (simp add: take_butlast)
  qed
  ultimately have "take (length sep) (pre @ butlast sep) = sep" by simp
  then show ?thesis
    by (metis take_is_prefix)
qed

lemma py_split_first:
  assumes "sep \<noteq> []" "\<not> sublist sep (pre @ butlast sep)"
  shows "py_split sep (pre @ sep @ rest) = pre # py_split sep rest"
  using assms(2)
proof (induction pre)
  case Nil
  obtain c cs where sep: "sep = c # cs" using assms(1) by (cases sep) auto
  have "py_split sep (sep @ rest) = [] # py_split sep (drop (length sep) (sep @ rest))"
    unfolding sep by simp
  then show ?case by simp
next
  case (Cons p ps)
  have np: "\<not> prefix sep (p # ps @ sep @ rest)"
  proof
    assume "prefix sep (p # ps @ sep @ rest)"
    then have "prefix sep ((p # ps) @ butlast sep)"
      using prefix_of_longer_append[of sep "p # ps" rest] by simp
    then have "sublist sep ((p # ps) @ butlast sep)"
      by (rule prefix_imp_sublist)
    with Cons.prems show False by simp
  qed
  have "\<not> sublist sep (ps @ butlast sep)"
    using Cons.prems by (auto simp: sublist_Cons_right)
  then have "py_split sep (ps @ sep @ rest) = ps # py_split sep rest"
    by (rule Cons.IH)
  with np show ?case by simp
qed

lemma em_dash_sep_not_Nil: "em_dash_sep \<noteq> []"
  by (simp add: em_dash_sep_def)

lemma py_index_Suc_0: "py_index (x # y # ys) (Suc 0) = Inr y"
  by (simp add: py_index_def)

text \<open>
  The executable \<open>after_first\<close> is what the words say: when the first occurrence of the
  separator splits the string into \<open>pre\<close> and \<open>post\<close>, it returns \<open>post\<close>.
\<close>

lemma after_first_first_occurrence:
  assumes "sep \<noteq> []" "first_occurrence sep s pre post"
  shows "after_first sep s = post"
proof -
  have "\<not> sublist sep (pre @ butlast sep) \<Longrightarrow> after_first sep (pre @ sep @ post) = post"
  proof (induction pre)
    case Nil
    obtain c cs where "sep = c # cs" using assms(1) by (cases sep) auto
    then show ?case by simp
  next
    case (Cons p ps)
    have "\<not> prefix sep (p # ps @ sep @ post)"
    proof
      assume "prefix sep (p # ps @ sep @ post)"
      then have "prefix sep ((p # ps) @ butlast sep)"
        using prefix_of_longer_append[of sep "p # ps" post] by simp
      then have "sublist sep ((p # ps) @ butlast sep)"
        by (rule prefix_imp_sublist)
      with Cons.prems show False by simp
    qed
    moreover have "\<not> sublist sep (ps @ butlast sep)"
      using Cons.prems by (auto simp: sublist_Cons_right)
    ultimately show ?case using Cons.IH by simp
  qed
  with assms(2) show ?thesis by (simp add: first_occurrence_def)
qed

section \<open>The sub-type folder\<close>

text \<open>
  Claim C1, as amended. For a record whose type line lacks the separator (a missing type
  line counts as empty) the sub-type folder is \<^verbatim>\<open>No_Subtype\<close>. For a record whose type
  line contains it, the folder is made from the second segment of the split: the text
  between the first occurrence of the separator and the next occurrence after it, or the
  end of the type line when there is no further occurrence; every space of that text is
  replaced by an underscore and the result is sanitized. When the separator occurs once,
  that text is everything after the first occurrence; when it occurs again, the folder
  differs from the one made from everything after the first occurrence.
\<close>

theorem sub_type_folder_segment:
  "(\<not> sublist em_dash_sep (dict_get (type_line c) []) \<longrightarrow>
      sub_type_folder c = Inr (ascii ''No_Subtype''))
   \<and> (first_occurrence em_dash_sep (dict_get (type_line c) []) pre post \<and>
      \<not> sublist em_dash_sep post \<longrightarrow>
      sub_type_folder c = Inr (sanitize_name (py_replace 32 95 post)))
   \<and> (first_occurrence em_dash_sep (dict_get (type_line c) []) pre post \<and>
      first_occurrence em_dash_sep post mid rest \<longrightarrow>
      sub_type_folder c = Inr (sanitize_name (py_replace 32 95 mid))
      \<and> sub_type_folder c \<noteq> Inr (sanitize_name (py_replace 32 95 post)))"
proof -
  have absent: "\<not> sublist em_dash_sep (dict_get (type_line c) []) \<longrightarrow>
      sub_type_folder c = Inr (ascii ''No_Subtype'')"
    by (simp add: sub_type_folder_def py_in_iff_sublist)
  have once: "first_occurrence em_dash_sep (dict_get (type_line c) []) pre post \<and>
      \<not> sublist em_dash_sep post \<longrightarrow>
      sub_type_folder c = Inr (sanitize_name (py_replace 32 95 post))"
  proof
    assume a: "first_occurrence em_dash_sep (dict_get (type_line c) []) pre post \<and>
        \<not> sublist em_dash_sep post"
    then have tline: "dict_get (type_line c) [] = pre @ em_dash_sep @ post"
      and first: "\<not> sublist em_dash_sep (pre @ butlast em_dash_sep)"
      by (simp_all add: first_occurrence_def)
    have "py_split em_dash_sep (pre @ em_dash_sep @ post) = pre # py_split em_dash_sep post"
      using em_dash_sep_not_Nil first by (rule py_split_first)
    also have "py_split em_dash_sep post = [post]"
      using a by (simp add: py_split_absent)
    finally have "py_split em_dash_sep (dict_get (type_line c) []) = [pre, post]"
      using tline by simp
    moreover have "py_in em_dash_sep (dict_get (type_line c) [])"
      using tline by (simp add: py_in_iff_sublist)
    ultimately show "sub_type_folder c = Inr (sanitize_name (py_replace 32 95 post))"
      by (simp add: sub_type_folder_def py_index_Suc_0)
  qed
  have again: "first_occurrence em_dash_sep (dict_get (type_line c) []) pre post \<and>
      first_occurrence em_dash_sep post mid rest \<longrightarrow>
      sub_type_folder c = Inr (sanitize_name (py_replace 32 95 mid))
      \<and> sub_type_folder c \<noteq> Inr (sanitize_name (py_replace 32 95 post))"
  proof
    assume a: "first_occurrence em_dash_sep (dict_get (type_line c) []) pre post \<and>
        first_occurrence em_dash_sep post mid rest"
    then have tline: "dict_get (type_line c) [] = pre @ em_dash_sep @ post"
      and first: "\<not> sublist em_dash_sep (pre @ butlast em_dash_sep)"
      and post: "post = mid @ em_dash_sep @ rest"
      and second: "\<not> sublist em_dash_sep (mid @ butlast em_dash_sep)"
      by (simp_all add: first_occurrence_def)
    have "py_split em_dash_sep (pre @ em_dash_sep @ post) = pre # py_split em_dash_sep post"
      using em_dash_sep_not_Nil first by (rule py_split_first)
    also have "py_split em_dash_sep post = mid # py_split em_dash_sep rest"
      unfolding post using em_dash_sep_not_Nil second by (rule py_split_first)
    finally have "py_split em_dash_sep (dict_get (type_line c) []) =
        pre # mid # py_split em_dash_sep rest"
      using tline by simp
    moreover have "py_in em_dash_sep (dict_get (type_line c) [])"
      using tline by (simp add: py_in_iff_sublist)
    ultimately have r: "sub_type_folder c = Inr (sanitize_name (py_replace 32 95 mid))"
      by (simp add: sub_type_folder_def py_index_Suc_0)
    have "sanitize_name (py_replace 32 95 post) =
        sanitize_name (py_replace 32 95 mid) @ [95, 8212, 95] @
        sanitize_name (py_replace 32 95 rest)"
      by (simp add: post sanitize_name_def re_sub_class_empty_filter py_replace_def
          em_dash_sep_def illegal_chars_def)
    then have "sanitize_name (py_replace 32 95 mid) \<noteq> sanitize_name (py_replace 32 95 post)"
      by simp
    with r show "sub_type_folder c = Inr (sanitize_name (py_replace 32 95 mid))
        \<and> sub_type_folder c \<noteq> Inr (sanitize_name (py_replace 32 95 post))"
      by simp
  qed
  from absent once again show ?thesis by (intro conjI)
qed

text \<open>
  The three cases at concrete records: the type line \<^verbatim>\<open>Instant // Instant\<close> has no
  separator; \<^verbatim>\<open>Creature <U+2014> Dragon\<close> has one; the type line of a double-faced card,
  \<^verbatim>\<open>Creature <U+2014> Human Werewolf // Creature <U+2014> Werewolf\<close>, has two.
\<close>

theorem sub_type_folder_segment_witness:
  "\<not> sublist em_dash_sep (ascii ''Instant // Instant'')
   \<and> sub_type_folder
       \<lparr>name = None, colors = None, card_faces = (None :: face list option),
        type_line = Some (ascii ''Instant // Instant'')\<rparr> = Inr (ascii ''No_Subtype'')
   \<and> first_occurrence em_dash_sep (ascii ''Creature'' @ em_dash_sep @ ascii ''Dragon'')
       (ascii ''Creature'') (ascii ''Dragon'')
   \<and> \<not> sublist em_dash_sep (ascii ''Dragon'')
   \<and> sub_type_folder
       \<lparr>name = None, colors = None, card_faces = (None :: face list option),
        type_line = Some (ascii ''Creature'' @ em_dash_sep @ ascii ''Dragon'')\<rparr>
       = Inr (ascii ''Dragon'')
   \<and> first_occurrence em_dash_sep
       (ascii ''Creature'' @ em_dash_sep @ ascii ''Human Werewolf // Creature'' @ em_dash_sep @
        ascii ''Werewolf'')
       (ascii ''Creature'')
       (ascii ''Human Werewolf // Creature'' @ em_dash_sep @ ascii ''Werewolf'')
   \<and> first_occurrence em_dash_sep
       (ascii ''Human Werewolf // Creature'' @ em_dash_sep @ ascii ''Werewolf'')
       (ascii ''Human Werewolf // Creature'') (ascii ''Werewolf'')
   \<and> sub_type_folder
       \<lparr>name = None, colors = None, card_faces = (None :: face list option),
        type_line = Some (ascii ''Creature'' @ em_dash_sep @ ascii ''Human Werewolf // Creature'' @
          em_dash_sep @ ascii ''Werewolf'')\<rparr>
       = Inr (ascii ''Human_Werewolf__Creature'')"
proof -
  let ?none = "\<lparr>name = None, colors = None, card_faces = (None :: face list option),
        type_line = Some (ascii ''Instant // Instant'')\<rparr>"
  let ?one = "\<lparr>name = None, colors = None, card_faces = (None :: face list option),
        type_line = Some (ascii ''Creature'' @ em_dash_sep @ ascii ''Dragon'')\<rparr>"
  let ?two = "\<lparr>name = None, colors = None, card_faces = (None :: face list option),
        type_line = Some (ascii ''Creature'' @ em_dash_sep @ ascii ''Human Werewolf // Creature'' @
          em_dash_sep @ ascii ''Werewolf'')\<rparr>"
  have n: "\<not> sublist em_dash_sep (ascii ''Instant // Instant'')"
    by (simp add: em_dash_sep_def ascii_def sublist_code)
  have o1: "first_occurrence em_dash_sep (ascii ''Creature'' @ em_dash_sep @ ascii ''Dragon'')
       (ascii ''Creature'') (ascii ''Dragon'')"
    by (simp add: first_occurrence_def em_dash_sep_def ascii_def sublist_code)
  have o2: "\<not> sublist em_dash_sep (ascii ''Dragon'')"
    by (simp add: em_dash_sep_def ascii_def sublist_code)
  have t1: "first_occurrence em_dash_sep
       (ascii ''Creature'' @ em_dash_sep @ ascii ''Human Werewolf // Creature'' @ em_dash_sep @
        ascii ''Werewolf'')
       (ascii ''Creature'')
       (ascii ''Human Werewolf // Creature'' @ em_dash_sep @ ascii ''Werewolf'')"
    by (simp add: first_occurrence_def em_dash_sep_def ascii_def sublist_code)
  have t2: "first_occurrence em_dash_sep
       (ascii ''Human Werewolf // Creature'' @ em_dash_sep @ ascii ''Werewolf'')
       (ascii ''Human Werewolf // Creature'') (ascii ''Werewolf'')"
    by (simp add: first_occurrence_def em_dash_sep_def ascii_def sublist_code)
  have r0: "sub_type_folder ?none = Inr (ascii ''No_Subtype'')"
    using sub_type_folder_segment [of ?none] n by (simp add: dict_get_def)
  have "sub_type_folder ?one = Inr (sanitize_name (py_replace 32 95 (ascii ''Dragon'')))"
    using sub_type_folder_segment [of ?one "ascii ''Creature''" "ascii ''Dragon''"] o1 o2
    by (simp add: dict_get_def)
  then have r1: "sub_type_folder ?one = Inr (ascii ''Dragon'')"
    by (simp add: sanitize_name_def py_replace_def illegal_chars_def ascii_def)
  have "sub_type_folder ?two =
      Inr (sanitize_name (py_replace 32 95 (ascii ''Human Werewolf // Creature'')))"
    using sub_type_folder_segment [of ?two "ascii ''Creature''"
        "ascii ''Human Werewolf // Creature'' @ em_dash_sep @ ascii ''Werewolf''"
        "ascii ''Human Werewolf // Creature''" "ascii ''Werewolf''"] t1 t2
    by (simp add: dict_get_def)
  then have r2: "sub_type_folder ?two = Inr (ascii ''Human_Werewolf__Creature'')"
    by (simp add: sanitize_name_def py_replace_def illegal_chars_def ascii_def)
  from n r0 o1 o2 r1 t1 t2 r2 show ?thesis by blast
qed

text \<open>
  Claim C1 as stated fails on the type line of a double-faced card: the script keeps
  the text up to the second separator, the claim everything after the first.
\<close>

theorem sub_type_folder_everything_after_counterexample:
  "sublist em_dash_sep
     (ascii ''Creature'' @ em_dash_sep @ ascii ''Human Werewolf // Creature'' @ em_dash_sep @
      ascii ''Werewolf'')
   \<and> sub_type_folder
       \<lparr>name = None, colors = None, card_faces = (None :: face list option),
        type_line = Some (ascii ''Creature'' @ em_dash_sep @ ascii ''Human Werewolf // Creature'' @
          em_dash_sep @ ascii ''Werewolf'')\<rparr>
       = Inr (ascii ''Human_Werewolf__Creature'')
   \<and> spec_sub_type_folder
       (ascii ''Creature'' @ em_dash_sep @ ascii ''Human Werewolf // Creature'' @ em_dash_sep @
        ascii ''Werewolf'')
       = ascii ''Human_Werewolf__Creature_'' @ [8212] @ ascii ''_Werewolf''
   \<and> sub_type_folder
       \<lparr>name = None, colors = None, card_faces = (None :: face list option),
        type_line = Some (ascii ''Creature'' @ em_dash_sep @ ascii ''Human Werewolf // Creature'' @
          em_dash_sep @ ascii ''Werewolf'')\<rparr>
       \<noteq> Inr (spec_sub_type_folder
           (ascii ''Creature'' @ em_dash_sep @ ascii ''Human Werewolf // Creature'' @
            em_dash_sep @ ascii ''Werewolf''))"
  by (simp add: sub_type_folder_def spec_sub_type_folder_def em_dash_sep_def ascii_def
      dict_get_def py_index_def py_replace_def sanitize_name_def illegal_chars_def sublist_code)

lemma sub_type_folder_total: "\<exists>sub. sub_type_folder c = Inr sub"
proof -
  have "2 \<le> length (py_split em_dash_sep t)" if "py_in em_dash_sep t" for t
    using em_dash_sep_not_Nil that by (rule py_split_length_ge2)
  from this[of "dict_get (type_line c) []"] show ?thesis
    by (auto simp: sub_type_folder_def py_index_def Let_def)
qed

text \<open>
  Claim C10. Whenever the guard holds, that is, the separator occurs in the type line,
  the split has at least two segments, so the access at index 1 is in range and yields the
  second segment; hence computing the sub-type folder raises \<^verbatim>\<open>IndexError\<close> (or anything
  else) for no record.
\<close>

theorem split_index_in_bounds:
  "(py_in em_dash_sep tline \<longrightarrow>
      2 \<le> length (py_split em_dash_sep tline)
      \<and> py_index (py_split em_dash_sep tline) 1 = Inr (py_split em_dash_sep tline ! 1))
   \<and> sub_type_folder c \<noteq> Inl e"
proof -
  have a: "2 \<le> length (py_split em_dash_sep t)" if "py_in em_dash_sep t" for t
    using em_dash_sep_not_Nil that by (rule py_split_length_ge2)
  have "sub_type_folder c \<noteq> Inl e"
    using sub_type_folder_total[of c] by auto
  with a[of tline] show ?thesis
    by (auto simp: py_index_def)
qed

theorem split_index_in_bounds_witness:
  "py_in em_dash_sep (ascii ''Creature'' @ em_dash_sep @ ascii ''Dragon'')
   \<and> 2 \<le> length (py_split em_dash_sep (ascii ''Creature'' @ em_dash_sep @ ascii ''Dragon''))
   \<and> py_index (py_split em_dash_sep (ascii ''Creature'' @ em_dash_sep @ ascii ''Dragon'')) 1
       = Inr (ascii ''Dragon'')
   \<and> sub_type_folder
       \<lparr>name = None, colors = None, card_faces = (None :: face list option),
        type_line = Some (ascii ''Creature'' @ em_dash_sep @ ascii ''Dragon'')\<rparr> \<noteq> Inl IndexError"
proof -
  let ?t = "ascii ''Creature'' @ em_dash_sep @ ascii ''Dragon''"
  let ?c = "\<lparr>name = None, colors = None, card_faces = (None :: face list option),
        type_line = Some ?t\<rparr>"
  have g: "py_in em_dash_sep ?t"
    by (simp add: em_dash_sep_def ascii_def)
  have v: "py_split em_dash_sep ?t ! 1 = ascii ''Dragon''"
    by (simp add: em_dash_sep_def ascii_def)
  from split_index_in_bounds [of ?t ?c IndexError] g v show ?thesis
    by simp
qed

section \<open>The sanitizer\<close>

text \<open>
  Claim C6. The sanitizer returns its input with exactly the occurrences of the nine
  characters \<^verbatim>\<open>\ / * ? : " < > |\<close> (code points 92, 47, 42, 63, 58, 34, 60, 62, 124)
  removed: the result is the input filtered by "is none of the nine", so every other
  character stays, in place and order (the result is a subsequence of the input, and
  its characters are those of the input that are none of the nine). A record named
  \<^verbatim>\<open>Kix <Test>\<close> gets the file name \<^verbatim>\<open>Kix Test.json\<close>, and a successful write of
  that record puts its serialization under that file name in its target directory.
\<close>

theorem sanitize_name_removes_exactly:
  "sanitize_name s = filter (\<lambda>ch. ch \<notin> {92, 47, 42, 63, 58, 34, 60, 62, 124}) s
   \<and> set (sanitize_name s) = set s - {92, 47, 42, 63, 58, 34, 60, 62, 124}
   \<and> subseq (sanitize_name s) s
   \<and> (name c = Some (ascii ''Kix <Test>'') \<longrightarrow>
        file_name c = ascii ''Kix Test.json''
        \<and> (write_card dumps output_root c w = Inr w' \<longrightarrow>
            (\<exists>d. target_dir output_root c = Inr d
               \<and> files w' (os_path_join d [ascii ''Kix Test.json'']) = Some (dumps c 4))))"
proof -
  have f: "sanitize_name s = filter (\<lambda>ch. ch \<notin> {92, 47, 42, 63, 58, 34, 60, 62, 124}) s"
    by (simp add: sanitize_name_def re_sub_class_empty_filter illegal_chars_def)
  have "set (sanitize_name s) = set s - {92, 47, 42, 63, 58, 34, 60, 62, 124}"
    unfolding f by auto
  moreover have "subseq (sanitize_name s) s"
    unfolding f by simp
  moreover have n: "file_name c = ascii ''Kix Test.json''" if "name c = Some (ascii ''Kix <Test>'')"
    using that
    by (simp add: file_name_def card_name_def dict_get_def sanitize_name_def illegal_chars_def
        ascii_def)
  moreover have "\<exists>d. target_dir output_root c = Inr d
      \<and> files w' (os_path_join d [ascii ''Kix Test.json'']) = Some (dumps c 4)"
    if "name c = Some (ascii ''Kix <Test>'')" "write_card dumps output_root c w = Inr w'"
    using that(2) n[OF that(1)]
    by (auto simp: write_card_def makedirs_def write_file_def split: sum.splits if_splits)
  ultimately show ?thesis using f by blast
qed

theorem sanitize_name_removes_exactly_witness:
  "sanitize_name (ascii ''Kix <Test>'') = ascii ''Kix Test''
   \<and> sanitize_name (ascii ''a b_c'' @ [8212, 233, 128512]) = ascii ''a b_c'' @ [8212, 233, 128512]
   \<and> file_name \<lparr>name = Some (ascii ''Kix <Test>''), colors = None,
        card_faces = (None :: face list option), type_line = None\<rparr> = ascii ''Kix Test.json''
   \<and> write_card (\<lambda>c i. ascii ''{}'') (ascii ''out'')
        \<lparr>name = Some (ascii ''Kix <Test>''), colors = None,
         card_faces = (None :: face list option), type_line = None\<rparr>
        \<lparr>dirs = {}, files = Map.empty, stdout = []\<rparr>
      = Inr \<lparr>dirs = {ascii ''out'', ascii ''out/Colorless'', ascii ''out/Colorless/Normal'',
                    ascii ''out/Colorless/Normal/No_Subtype''},
              files = [ascii ''out/Colorless/Normal/No_Subtype/Kix Test.json'' \<mapsto> ascii ''{}''],
              stdout = []\<rparr>
   \<and> target_dir (ascii ''out'')
        \<lparr>name = Some (ascii ''Kix <Test>''), colors = None,
         card_faces = (None :: face list option), type_line = None\<rparr>
      = Inr (ascii ''out/Colorless/Normal/No_Subtype'')
   \<and> files \<lparr>dirs = {ascii ''out'', ascii ''out/Colorless'', ascii ''out/Colorless/Normal'',
                    ascii ''out/Colorless/Normal/No_Subtype''},
              files = [ascii ''out/Colorless/Normal/No_Subtype/Kix Test.json'' \<mapsto> ascii ''{}''],
              stdout = []\<rparr>
        (os_path_join (ascii ''out/Colorless/Normal/No_Subtype'') [ascii ''Kix Test.json''])
      = Some (ascii ''{}'')"
proof -
  let ?c = "\<lparr>name = Some (ascii ''Kix <Test>''), colors = None,
         card_faces = (None :: face list option), type_line = None\<rparr>"
  let ?w = "\<lparr>dirs = {}, files = Map.empty, stdout = []\<rparr>"
  let ?w' = "\<lparr>dirs = {ascii ''out'', ascii ''out/Colorless'', ascii ''out/Colorless/Normal'',
                    ascii ''out/Colorless/Normal/No_Subtype''},
              files = [ascii ''out/Colorless/Normal/No_Subtype/Kix Test.json'' \<mapsto> ascii ''{}''],
              stdout = []\<rparr>"
  have td: "target_dir (ascii ''out'') ?c = Inr (ascii ''out/Colorless/Normal/No_Subtype'')"
    by (simp add: target_dir_def sub_type_folder_def color_folder_def colors_list_def
        super_type_folder_def found_supers_def super_type_list_def dict_get_def
        os_path_join_def join_step_def em_dash_sep_def ascii_def)
  have run: "write_card (\<lambda>c i. ascii ''{}'') (ascii ''out'') ?c ?w = Inr ?w'"
    unfolding write_card_def td
    by (auto simp: makedirs_def write_file_def dir_chain_def os_path_join_def join_step_def
        file_name_def card_name_def dict_get_def sanitize_name_def illegal_chars_def ascii_def)
  have s: "sanitize_name (ascii ''Kix <Test>'') = ascii ''Kix Test''"
    using sanitize_name_removes_exactly [of "ascii ''Kix <Test>''" ?c "\<lambda>c i. ascii ''{}''" "ascii ''out''" ?w ?w']
    by (simp add: ascii_def)
  have fn: "file_name ?c = ascii ''Kix Test.json''"
    using sanitize_name_removes_exactly [of "[]" ?c "\<lambda>c i. ascii ''{}''" "ascii ''out''" ?w ?w']
    by simp
  have "\<exists>d. target_dir (ascii ''out'') ?c = Inr d
      \<and> files ?w' (os_path_join d [ascii ''Kix Test.json'']) = Some (ascii ''{}'')"
    using sanitize_name_removes_exactly [of "[]" ?c "\<lambda>c i. ascii ''{}''" "ascii ''out''" ?w ?w'] run
    by simp
  then have wr: "files ?w' (os_path_join (ascii ''out/Colorless/Normal/No_Subtype'')
      [ascii ''Kix Test.json'']) = Some (ascii ''{}'')"
    unfolding td by simp
  have u: "sanitize_name (ascii ''a b_c'' @ [8212, 233, 128512]) = ascii ''a b_c'' @ [8212, 233, 128512]"
    using sanitize_name_removes_exactly [of "ascii ''a b_c'' @ [8212, 233, 128512]" ?c
        "\<lambda>c i. ascii ''{}''" "ascii ''out''" ?w ?w']
    by (simp add: ascii_def)
  from s u fn run td wr show ?thesis by blast
qed


section \<open>The color folder\<close>

lemma py_join_empty_sep: "sep = [] \<Longrightarrow> py_join sep xs = concat xs"
  by (induction sep xs rule: py_join.induct) auto

lemma py_join_Nil_concat: "py_join [] xs = concat xs"
  by (simp add: py_join_empty_sep)

lemma sort_distinct_sorted_list_of_set:
  "distinct xs \<Longrightarrow> sort xs = sorted_list_of_set (set xs)"
  by (simp add: sorted_list_of_set_sort_remdups distinct_remdups_id)

text \<open>
  Whatever order \<^verbatim>\<open>list(set(xs))\<close> produces, sorting it gives what sorting the model's
  \<open>py_list_set xs\<close> gives.
\<close>

lemma sort_list_set_any_order:
  assumes "distinct ys" "set ys = set xs"
  shows "sort ys = sort (py_list_set xs)"
  using assms by (simp add: py_list_set_def sort_distinct_sorted_list_of_set)

lemma set_face_colors_all:
  "set (face_colors_all faces) = (\<Union>fc \<in> set faces. set (dict_get (face_colors fc) []))"
  by (simp add: face_colors_all_def)

lemma face_colors_all_Nil_iff:
  "face_colors_all faces = [] \<longleftrightarrow> (\<forall>fc \<in> set faces. dict_get (face_colors fc) [] = [])"
  by (simp add: face_colors_all_def)

text \<open>
  Claim C2, as amended. For a record with a non-empty \<^verbatim>\<open>colors\<close> list the color folder
  is the concatenation of the letters of that list in sorted order, each letter as often
  as the list has it: the list is sorted, not deduplicated. (The sorted list is the only
  sorted rearrangement of the list, which the second part says.) When no letter is
  repeated, this is the deduplicated, sorted, concatenated letters of the claim.
\<close>

theorem color_folder_sorted_concat:
  "colors c = Some cs \<and> cs \<noteq> [] \<longrightarrow>
     color_folder c = concat (sort cs)
     \<and> (\<forall>ys. sorted ys \<and> mset ys = mset cs \<longrightarrow> color_folder c = concat ys)
     \<and> (distinct cs \<longrightarrow> color_folder c = spec_color_letters cs)"
proof (intro impI)
  assume a: "colors c = Some cs \<and> cs \<noteq> []"
  then have cf: "color_folder c = concat (sort cs)"
    by (simp add: color_folder_def colors_list_def dict_get_def py_join_Nil_concat)
  have "sort cs = ys" if "sorted ys \<and> mset ys = mset cs" for ys
    using that by (simp add: properties_for_sort)
  moreover have "sort cs = sorted_list_of_set (set cs)" if "distinct cs"
    using that by (rule sort_distinct_sorted_list_of_set)
  ultimately show "color_folder c = concat (sort cs)
     \<and> (\<forall>ys. sorted ys \<and> mset ys = mset cs \<longrightarrow> color_folder c = concat ys)
     \<and> (distinct cs \<longrightarrow> color_folder c = spec_color_letters cs)"
    using cf by (auto simp: spec_color_letters_def)
qed

theorem color_folder_sorted_concat_witness:
  "colors \<lparr>name = None, colors = Some [ascii ''W'', ascii ''U''],
       card_faces = (None :: face list option), type_line = None\<rparr>
     = Some [ascii ''W'', ascii ''U'']
   \<and> [ascii ''W'', ascii ''U''] \<noteq> []
   \<and> distinct [ascii ''W'', ascii ''U'']
   \<and> sorted [ascii ''U'', ascii ''W'']
   \<and> mset [ascii ''U'', ascii ''W''] = mset [ascii ''W'', ascii ''U'']
   \<and> color_folder \<lparr>name = None, colors = Some [ascii ''W'', ascii ''U''],
       card_faces = (None :: face list option), type_line = None\<rparr> = ascii ''UW''
   \<and> spec_color_letters [ascii ''W'', ascii ''U''] = ascii ''UW''"
proof -
  let ?c = "\<lparr>name = None, colors = Some [ascii ''W'', ascii ''U''],
       card_faces = (None :: face list option), type_line = None\<rparr>"
  have d: "distinct [ascii ''W'', ascii ''U'']" by (simp add: ascii_def)
  have s: "sorted [ascii ''U'', ascii ''W'']" by (simp add: ascii_def)
  have m: "mset [ascii ''U'', ascii ''W''] = mset [ascii ''W'', ascii ''U'']" by simp
  have h: "colors ?c = Some [ascii ''W'', ascii ''U''] \<and> [ascii ''W'', ascii ''U''] \<noteq> []"
    by simp
  note th = color_folder_sorted_concat [of ?c "[ascii ''W'', ascii ''U'']", rule_format, OF h]
  from th have "color_folder ?c = concat [ascii ''U'', ascii ''W'']"
    using s m by blast
  then have r: "color_folder ?c = ascii ''UW''"
    by (simp add: ascii_def)
  from th d have "color_folder ?c = spec_color_letters [ascii ''W'', ascii ''U'']"
    by blast
  with r have "spec_color_letters [ascii ''W'', ascii ''U''] = ascii ''UW''"
    by simp
  with h d s m r show ?thesis by blast
qed

text \<open>
  Claim C2 as stated fails on a list with a repeated letter: the script keeps both.
\<close>

theorem color_folder_dedup_counterexample:
  "color_folder \<lparr>name = None, colors = Some [ascii ''W'', ascii ''W''],
       card_faces = (None :: face list option), type_line = None\<rparr> = ascii ''WW''
   \<and> spec_color_letters [ascii ''W'', ascii ''W''] = ascii ''W''
   \<and> color_folder \<lparr>name = None, colors = Some [ascii ''W'', ascii ''W''],
       card_faces = (None :: face list option), type_line = None\<rparr>
     \<noteq> spec_color_letters [ascii ''W'', ascii ''W'']"
  by (simp add: color_folder_def colors_list_def dict_get_def spec_color_letters_def ascii_def)

text \<open>
  Claim C4. For a record whose \<^verbatim>\<open>colors\<close> list is empty or absent and which has a
  \<^verbatim>\<open>card_faces\<close> list with some color on some face, the color folder is the
  concatenation of the sorted list of the set of all face colors (their union,
  deduplicated). For a record with no colors anywhere, that is, \<^verbatim>\<open>colors\<close> empty or
  absent and either no \<^verbatim>\<open>card_faces\<close> or no color on any face, it is
  \<^verbatim>\<open>Colorless\<close>.
\<close>

theorem color_folder_faces:
  "(dict_get (colors c) [] = [] \<and> card_faces c = Some faces
      \<and> (\<exists>fc \<in> set faces. dict_get (face_colors fc) [] \<noteq> []) \<longrightarrow>
      color_folder c =
        concat (sorted_list_of_set (\<Union>fc \<in> set faces. set (dict_get (face_colors fc) []))))
   \<and> (dict_get (colors c) [] = [] \<and> card_faces c = Some faces
      \<and> (\<forall>fc \<in> set faces. dict_get (face_colors fc) [] = []) \<longrightarrow>
      color_folder c = ascii ''Colorless'')
   \<and> (dict_get (colors c) [] = [] \<and> card_faces c = None \<longrightarrow>
      color_folder c = ascii ''Colorless'')"
proof (intro conjI impI)
  assume a: "dict_get (colors c) [] = [] \<and> card_faces c = Some faces
      \<and> (\<exists>fc \<in> set faces. dict_get (face_colors fc) [] \<noteq> [])"
  then have "face_colors_all faces \<noteq> []"
    by (simp add: face_colors_all_Nil_iff)
  with a have "color_folder c = concat (sorted_list_of_set (set (face_colors_all faces)))"
    by (simp add: color_folder_def colors_list_def py_join_Nil_concat py_list_set_def
        sorted_list_of_set_sort_remdups)
  then show "color_folder c =
        concat (sorted_list_of_set (\<Union>fc \<in> set faces. set (dict_get (face_colors fc) [])))"
    by (simp only: set_face_colors_all)
next
  assume "dict_get (colors c) [] = [] \<and> card_faces c = Some faces
      \<and> (\<forall>fc \<in> set faces. dict_get (face_colors fc) [] = [])"
  then show "color_folder c = ascii ''Colorless''"
    by (simp add: color_folder_def colors_list_def py_list_set_def face_colors_all_Nil_iff)
next
  assume "dict_get (colors c) [] = [] \<and> card_faces c = None"
  then show "color_folder c = ascii ''Colorless''"
    by (simp add: color_folder_def colors_list_def)
qed

text \<open>
  The record of scenario C (\<^verbatim>\<open>Fire // Ice\<close>: no top-level colors, faces red and blue),
  the same faces under an empty top-level list with a repeated and an absent face color,
  a record whose faces have no colors, and a record with neither field.
\<close>

theorem color_folder_faces_witness:
  "color_folder \<lparr>name = Some (ascii ''Fire // Ice''), colors = None,
       card_faces = Some [\<lparr>face_colors = Some [ascii ''R'']\<rparr>, \<lparr>face_colors = Some [ascii ''U'']\<rparr>],
       type_line = Some (ascii ''Instant // Instant'')\<rparr> = ascii ''RU''
   \<and> color_folder \<lparr>name = None, colors = Some [],
       card_faces = Some [\<lparr>face_colors = Some [ascii ''U'', ascii ''R'']\<rparr>, \<lparr>face_colors = None\<rparr>,
                          \<lparr>face_colors = Some [ascii ''R'']\<rparr>],
       type_line = None\<rparr> = ascii ''RU''
   \<and> color_folder \<lparr>name = None, colors = None,
       card_faces = Some [\<lparr>face_colors = None\<rparr>, \<lparr>face_colors = Some []\<rparr>],
       type_line = None\<rparr> = ascii ''Colorless''
   \<and> color_folder \<lparr>name = None, colors = None, card_faces = (None :: face list option),
       type_line = None\<rparr> = ascii ''Colorless''"
proof -
  let ?f1 = "[\<lparr>face_colors = Some [ascii ''R'']\<rparr>, \<lparr>face_colors = Some [ascii ''U'']\<rparr>]"
  let ?f2 = "[\<lparr>face_colors = Some [ascii ''U'', ascii ''R'']\<rparr>, \<lparr>face_colors = None\<rparr>,
                          \<lparr>face_colors = Some [ascii ''R'']\<rparr>]"
  let ?f3 = "[\<lparr>face_colors = None\<rparr>, \<lparr>face_colors = Some []\<rparr>]"
  let ?c1 = "\<lparr>name = Some (ascii ''Fire // Ice''), colors = None, card_faces = Some ?f1,
       type_line = Some (ascii ''Instant // Instant'')\<rparr>"
  let ?c2 = "\<lparr>name = None, colors = Some [], card_faces = Some ?f2, type_line = None\<rparr>"
  let ?c3 = "\<lparr>name = None, colors = None, card_faces = Some ?f3, type_line = None\<rparr>"
  let ?c4 = "\<lparr>name = None, colors = None, card_faces = (None :: face list option),
       type_line = None\<rparr>"
  have srt: "sorted_list_of_set (set [ascii ''R'', ascii ''U'']) = [ascii ''R'', ascii ''U'']"
    unfolding sorted_list_of_set_sort_remdups by (simp add: ascii_def)
  have u1: "(\<Union>fc \<in> set ?f1. set (dict_get (face_colors fc) [])) = set [ascii ''R'', ascii ''U'']"
    by (auto simp: dict_get_def)
  have u2: "(\<Union>fc \<in> set ?f2. set (dict_get (face_colors fc) [])) = set [ascii ''R'', ascii ''U'']"
    by (auto simp: dict_get_def)
  have h1: "dict_get (colors ?c1) [] = [] \<and> card_faces ?c1 = Some ?f1
      \<and> (\<exists>fc \<in> set ?f1. dict_get (face_colors fc) [] \<noteq> [])"
    by (simp add: dict_get_def)
  have h2: "dict_get (colors ?c2) [] = [] \<and> card_faces ?c2 = Some ?f2
      \<and> (\<exists>fc \<in> set ?f2. dict_get (face_colors fc) [] \<noteq> [])"
    by (simp add: dict_get_def)
  have "color_folder ?c1 = concat (sorted_list_of_set (set [ascii ''R'', ascii ''U'']))"
    using color_folder_faces [of ?c1 ?f1, THEN conjunct1, rule_format, OF h1]
    unfolding u1 .
  then have r1: "color_folder ?c1 = ascii ''RU''"
    unfolding srt by (simp add: ascii_def)
  have "color_folder ?c2 = concat (sorted_list_of_set (set [ascii ''R'', ascii ''U'']))"
    using color_folder_faces [of ?c2 ?f2, THEN conjunct1, rule_format, OF h2]
    unfolding u2 .
  then have r2: "color_folder ?c2 = ascii ''RU''"
    unfolding srt by (simp add: ascii_def)
  have r3: "color_folder ?c3 = ascii ''Colorless''"
    using color_folder_faces [of ?c3 ?f3] by (simp add: dict_get_def)
  have r4: "color_folder ?c4 = ascii ''Colorless''"
    using color_folder_faces [of ?c4 "[]"] by (simp add: dict_get_def)
  from r1 r2 r3 r4 show ?thesis by blast
qed

section \<open>The super-type folder\<close>

lemma py_join_Cons: "py_join sep (x # xs) = x @ concat (map (\<lambda>s. sep @ s) xs)"
  by (induction xs arbitrary: x) auto

lemma set_py_join_subset: "set (py_join sep xs) \<subseteq> set sep \<union> (\<Union>x \<in> set xs. set x)"
  by (induction sep xs rule: py_join.induct) auto

lemma found_supers_sublist:
  "found_supers c =
     filter (\<lambda>s. sublist s (dict_get (type_line c) []))
       [ascii ''Basic'', ascii ''Legendary'', ascii ''Snow'', ascii ''World'',
        ascii ''Ongoing'', ascii ''Elite'']"
  by (simp add: found_supers_def super_type_list_def py_in_iff_sublist)

text \<open>
  Claim C5. The names found are the fixed list filtered by "occurs as a substring of
  the type line" (the empty string when the type line is absent), so they stand in the
  order of the fixed list whatever their order in the type line; the folder is the first
  name found followed by each further one after a single space, and \<^verbatim>\<open>Normal\<close> when
  none is found.
\<close>

theorem super_type_folder_fixed_order:
  "super_type_folder c =
     (case filter (\<lambda>s. sublist s (dict_get (type_line c) []))
             [ascii ''Basic'', ascii ''Legendary'', ascii ''Snow'', ascii ''World'',
              ascii ''Ongoing'', ascii ''Elite''] of
        [] \<Rightarrow> ascii ''Normal''
      | x # xs \<Rightarrow> x @ concat (map (\<lambda>s. ascii '' '' @ s) xs))
   \<and> ((\<forall>s \<in> set [ascii ''Basic'', ascii ''Legendary'', ascii ''Snow'', ascii ''World'',
                     ascii ''Ongoing'', ascii ''Elite''].
          \<not> sublist s (dict_get (type_line c) [])) \<longrightarrow>
        super_type_folder c = ascii ''Normal'')"
proof
  show eq: "super_type_folder c =
     (case filter (\<lambda>s. sublist s (dict_get (type_line c) []))
             [ascii ''Basic'', ascii ''Legendary'', ascii ''Snow'', ascii ''World'',
              ascii ''Ongoing'', ascii ''Elite''] of
        [] \<Rightarrow> ascii ''Normal''
      | x # xs \<Rightarrow> x @ concat (map (\<lambda>s. ascii '' '' @ s) xs))"
    unfolding found_supers_sublist [symmetric]
    by (cases "found_supers c") (simp_all add: super_type_folder_def py_join_Cons)
  show "(\<forall>s \<in> set [ascii ''Basic'', ascii ''Legendary'', ascii ''Snow'', ascii ''World'',
                     ascii ''Ongoing'', ascii ''Elite''].
          \<not> sublist s (dict_get (type_line c) [])) \<longrightarrow>
        super_type_folder c = ascii ''Normal''"
  proof
    assume "\<forall>s \<in> set [ascii ''Basic'', ascii ''Legendary'', ascii ''Snow'', ascii ''World'',
                     ascii ''Ongoing'', ascii ''Elite''].
          \<not> sublist s (dict_get (type_line c) [])"
    then have "found_supers c = []"
      unfolding found_supers_sublist by (simp only: filter_False)
    then show "super_type_folder c = ascii ''Normal''"
      by (simp add: super_type_folder_def)
  qed
qed

text \<open>
  A type line that names three super-types in the reverse of the list's order, the type
  line of scenario A, which names none, and a record without a type line.
\<close>

theorem super_type_folder_fixed_order_witness:
  "super_type_folder \<lparr>name = None, colors = None, card_faces = (None :: face list option),
       type_line = Some (ascii ''Snow Legendary Basic Land'')\<rparr> = ascii ''Basic Legendary Snow''
   \<and> super_type_folder \<lparr>name = None, colors = None, card_faces = (None :: face list option),
       type_line = Some (ascii ''Creature'' @ em_dash_sep @ ascii ''Dragon'')\<rparr> = ascii ''Normal''
   \<and> super_type_folder \<lparr>name = None, colors = None, card_faces = (None :: face list option),
       type_line = None\<rparr> = ascii ''Normal''"
proof -
  let ?c1 = "\<lparr>name = None, colors = None, card_faces = (None :: face list option),
       type_line = Some (ascii ''Snow Legendary Basic Land'')\<rparr>"
  let ?c2 = "\<lparr>name = None, colors = None, card_faces = (None :: face list option),
       type_line = Some (ascii ''Creature'' @ em_dash_sep @ ascii ''Dragon'')\<rparr>"
  let ?c3 = "\<lparr>name = None, colors = None, card_faces = (None :: face list option),
       type_line = None\<rparr>"
  have r1: "super_type_folder ?c1 = ascii ''Basic Legendary Snow''"
    using super_type_folder_fixed_order [of ?c1, THEN conjunct1]
    by (simp add: dict_get_def ascii_def sublist_code)
  have n2: "\<forall>s \<in> set [ascii ''Basic'', ascii ''Legendary'', ascii ''Snow'', ascii ''World'',
                     ascii ''Ongoing'', ascii ''Elite''].
          \<not> sublist s (dict_get (type_line ?c2) [])"
    by (simp add: dict_get_def ascii_def em_dash_sep_def sublist_code)
  have r2: "super_type_folder ?c2 = ascii ''Normal''"
    using super_type_folder_fixed_order [of ?c2, THEN conjunct2] n2 by blast
  have n3: "\<forall>s \<in> set [ascii ''Basic'', ascii ''Legendary'', ascii ''Snow'', ascii ''World'',
                     ascii ''Ongoing'', ascii ''Elite''].
          \<not> sublist s (dict_get (type_line ?c3) [])"
    by (simp add: dict_get_def ascii_def sublist_code)
  have r3: "super_type_folder ?c3 = ascii ''Normal''"
    using super_type_folder_fixed_order [of ?c3, THEN conjunct2] n3 by blast
  from r1 r2 r3 show ?thesis by blast
qed

section \<open>The unsanitized path segments\<close>

lemma super_type_list_legal:
  "s \<in> set super_type_list \<Longrightarrow> set s \<inter> {92, 47, 42, 63, 58, 34, 60, 62, 124} = {}"
  by (auto simp: super_type_list_def ascii_def)

lemma colors_list_subset:
  "set (colors_list c) \<subseteq>
     set (dict_get (colors c) []) \<union>
     (case card_faces c of None \<Rightarrow> {}
      | Some faces \<Rightarrow> (\<Union>fc \<in> set faces. set (dict_get (face_colors fc) [])))"
  by (auto simp: colors_list_def Let_def py_list_set_def face_colors_all_def split: option.splits)

lemma set_py_join_disjoint:
  assumes "set sep \<inter> A = {}" "\<forall>x \<in> set xs. set x \<inter> A = {}"
  shows "set (py_join sep xs) \<inter> A = {}"
  using set_py_join_subset[of sep xs] assms by fast

lemma set_concat_disjoint:
  "\<forall>x \<in> set xs. set x \<inter> A = {} \<Longrightarrow> set (concat xs) \<inter> A = {}"
  by auto

text \<open>
  Claim C3, as amended. The super-type folder contains none of the nine characters, for
  every record. The color folder is not sanitized: it contains none of them provided no
  color code of the record does, neither in \<^verbatim>\<open>colors\<close> nor in the \<^verbatim>\<open>colors\<close> of a
  face; this holds in particular when the codes are single letters.
\<close>

theorem unsanitized_folders_legal:
  "set (super_type_folder c) \<inter> {92, 47, 42, 63, 58, 34, 60, 62, 124} = {}
   \<and> ((\<forall>s \<in> set (dict_get (colors c) []). set s \<inter> {92, 47, 42, 63, 58, 34, 60, 62, 124} = {})
       \<and> (\<forall>faces. card_faces c = Some faces \<longrightarrow>
            (\<forall>fc \<in> set faces. \<forall>s \<in> set (dict_get (face_colors fc) []).
               set s \<inter> {92, 47, 42, 63, 58, 34, 60, 62, 124} = {}))
       \<longrightarrow> set (color_folder c) \<inter> {92, 47, 42, 63, 58, 34, 60, 62, 124} = {})"
proof (intro conjI impI)
  define IL :: "nat set" where "IL = {92, 47, 42, 63, 58, 34, 60, 62, 124}"
  have fs: "\<forall>x \<in> set (found_supers c). set x \<inter> IL = {}"
    unfolding IL_def using super_type_list_legal by (simp add: found_supers_def)
  have sp: "set (ascii '' '') \<inter> IL = {}" by (simp add: ascii_def IL_def)
  have j: "set (py_join (ascii '' '') (found_supers c)) \<inter> IL = {}"
    using sp fs by (rule set_py_join_disjoint)
  have n: "set (ascii ''Normal'') \<inter> IL = {}" by (simp add: ascii_def IL_def)
  from j n have "set (super_type_folder c) \<inter> IL = {}"
    by (simp add: super_type_folder_def)
  then show "set (super_type_folder c) \<inter> {92, 47, 42, 63, 58, 34, 60, 62, 124} = {}"
    unfolding IL_def .
next
  define IL :: "nat set" where "IL = {92, 47, 42, 63, 58, 34, 60, 62, 124}"
  assume "(\<forall>s \<in> set (dict_get (colors c) []). set s \<inter> {92, 47, 42, 63, 58, 34, 60, 62, 124} = {})
       \<and> (\<forall>faces. card_faces c = Some faces \<longrightarrow>
            (\<forall>fc \<in> set faces. \<forall>s \<in> set (dict_get (face_colors fc) []).
               set s \<inter> {92, 47, 42, 63, 58, 34, 60, 62, 124} = {}))"
  then have a1: "\<forall>s \<in> set (dict_get (colors c) []). set s \<inter> IL = {}"
    and a2: "\<forall>faces. card_faces c = Some faces \<longrightarrow>
            (\<forall>fc \<in> set faces. \<forall>s \<in> set (dict_get (face_colors fc) []). set s \<inter> IL = {})"
    unfolding IL_def by blast+
  have cl: "\<forall>s \<in> set (colors_list c). set s \<inter> IL = {}"
  proof
    fix s assume "s \<in> set (colors_list c)"
    with colors_list_subset[of c] have "s \<in> set (dict_get (colors c) []) \<or>
        (\<exists>faces. card_faces c = Some faces \<and> (\<exists>fc \<in> set faces. s \<in> set (dict_get (face_colors fc) [])))"
      by (auto split: option.splits)
    with a1 a2 show "set s \<inter> IL = {}" by blast
  qed
  then have "\<forall>s \<in> set (sort (colors_list c)). set s \<inter> IL = {}"
    by simp
  then have k: "set (concat (sort (colors_list c))) \<inter> IL = {}"
    by (rule set_concat_disjoint)
  have n: "set (ascii ''Colorless'') \<inter> IL = {}" by (simp add: ascii_def IL_def)
  from k n have "set (color_folder c) \<inter> IL = {}"
    by (simp add: color_folder_def Let_def py_join_Nil_concat)
  then show "set (color_folder c) \<inter> {92, 47, 42, 63, 58, 34, 60, 62, 124} = {}"
    unfolding IL_def .
qed

theorem unsanitized_folders_legal_witness:
  "set (super_type_folder \<lparr>name = None, colors = Some [ascii ''W'', ascii ''U''],
       card_faces = Some [\<lparr>face_colors = Some [ascii ''R'']\<rparr>],
       type_line = Some (ascii ''Legendary Creature'')\<rparr>)
     \<inter> {92, 47, 42, 63, 58, 34, 60, 62, 124} = {}
   \<and> set (ascii ''W'') \<inter> {92, 47, 42, 63, 58, 34, 60, 62, 124} = {}
   \<and> set (ascii ''U'') \<inter> {92, 47, 42, 63, 58, 34, 60, 62, 124} = {}
   \<and> set (ascii ''R'') \<inter> {92, 47, 42, 63, 58, 34, 60, 62, 124} = {}
   \<and> set (color_folder \<lparr>name = None, colors = Some [ascii ''W'', ascii ''U''],
       card_faces = Some [\<lparr>face_colors = Some [ascii ''R'']\<rparr>],
       type_line = Some (ascii ''Legendary Creature'')\<rparr>)
     \<inter> {92, 47, 42, 63, 58, 34, 60, 62, 124} = {}"
proof -
  let ?c = "\<lparr>name = None, colors = Some [ascii ''W'', ascii ''U''],
       card_faces = Some [\<lparr>face_colors = Some [ascii ''R'']\<rparr>],
       type_line = Some (ascii ''Legendary Creature'')\<rparr>"
  have w: "set (ascii ''W'') \<inter> {92, 47, 42, 63, 58, 34, 60, 62, 124} = {}"
    and u: "set (ascii ''U'') \<inter> {92, 47, 42, 63, 58, 34, 60, 62, 124} = {}"
    and r: "set (ascii ''R'') \<inter> {92, 47, 42, 63, 58, 34, 60, 62, 124} = {}"
    by (simp_all add: ascii_def)
  have h1: "\<forall>s \<in> set (dict_get (colors ?c) []). set s \<inter> {92, 47, 42, 63, 58, 34, 60, 62, 124} = {}"
    using w u by (simp add: dict_get_def)
  have h2: "\<forall>faces. card_faces ?c = Some faces \<longrightarrow>
            (\<forall>fc \<in> set faces. \<forall>s \<in> set (dict_get (face_colors fc) []).
               set s \<inter> {92, 47, 42, 63, 58, 34, 60, 62, 124} = {})"
    using r by (simp add: dict_get_def)
  note th = unsanitized_folders_legal [of ?c]
  have s: "set (super_type_folder ?c) \<inter> {92, 47, 42, 63, 58, 34, 60, 62, 124} = {}"
    by (rule th [THEN conjunct1])
  have cf: "set (color_folder ?c) \<inter> {92, 47, 42, 63, 58, 34, 60, 62, 124} = {}"
    by (rule th [THEN conjunct2, THEN mp, OF conjI, OF h1 h2])
  show ?thesis
    using s w u r cf by (intro conjI)
qed

text \<open>
  Claim C3 as stated fails for the color folder: a color code that is a slash passes
  into the path unchanged.
\<close>

theorem color_folder_illegal_counterexample:
  "color_folder \<lparr>name = None, colors = Some [[47]], card_faces = (None :: face list option),
       type_line = None\<rparr> = [47]
   \<and> 47 \<in> set illegal_chars
   \<and> set (color_folder \<lparr>name = None, colors = Some [[47]],
       card_faces = (None :: face list option), type_line = None\<rparr>)
     \<inter> {92, 47, 42, 63, 58, 34, 60, 62, 124} \<noteq> {}"
  by (simp add: color_folder_def colors_list_def dict_get_def illegal_chars_def)

section \<open>Facts about the writer\<close>

lemma target_dir_total: "\<exists>d. target_dir root c = Inr d"
  using sub_type_folder_total[of c] by (auto simp: target_dir_def)

lemma file_path_total: "\<exists>p. file_path root c = Inr p"
  using target_dir_total[of root c] by (auto simp: file_path_def)

lemma file_path_target_dir:
  "target_dir root c = Inr d \<Longrightarrow> file_path root c = Inr (os_path_join d [file_name c])"
  by (simp add: file_path_def)

lemma write_card_Inr_iff:
  "write_card dumps root c w = Inr w' \<longleftrightarrow>
     (\<exists>d p. target_dir root c = Inr d \<and> file_path root c = Inr p \<and> d \<noteq> []
        \<and> (\<forall>x \<in> set (dir_chain d). files w x = None)
        \<and> p \<notin> dirs w \<and> p \<notin> set (dir_chain d)
        \<and> w' = w\<lparr>dirs := dirs w \<union> set (dir_chain d), files := (files w)(p \<mapsto> dumps c 4)\<rparr>)"
  by (auto simp: write_card_def file_path_def makedirs_def write_file_def
      split: sum.splits if_splits)

lemma process_cards_Cons_Inr:
  "process_cards dumps root (c # cs) w = Inr w1 \<longleftrightarrow>
     (\<exists>w'. write_card dumps root c w = Inr w' \<and> process_cards dumps root cs w' = Inr w1)"
  by (auto split: sum.splits)

lemma process_cards_dirs_mono:
  "process_cards dumps root cs w = Inr w1 \<Longrightarrow> dirs w \<subseteq> dirs w1"
proof (induction cs arbitrary: w)
  case Nil
  then show ?case by simp
next
  case (Cons c cs)
  from Cons.prems(1) obtain w' where wc: "write_card dumps root c w = Inr w'"
    and rest: "process_cards dumps root cs w' = Inr w1"
    unfolding process_cards_Cons_Inr by blast
  from wc have "dirs w \<subseteq> dirs w'" by (auto simp: write_card_Inr_iff)
  with Cons.IH[OF rest] show ?case by blast
qed

lemma process_cards_files_mono:
  "process_cards dumps root cs w = Inr w1 \<Longrightarrow> files w p \<noteq> None \<Longrightarrow> files w1 p \<noteq> None"
proof (induction cs arbitrary: w)
  case Nil
  then show ?case by simp
next
  case (Cons c cs)
  from Cons.prems(1) obtain w' where wc: "write_card dumps root c w = Inr w'"
    and rest: "process_cards dumps root cs w' = Inr w1"
    unfolding process_cards_Cons_Inr by blast
  from wc Cons.prems(2) have "files w' p \<noteq> None" by (auto simp: write_card_Inr_iff)
  with Cons.IH[OF rest] show ?case by blast
qed

lemma process_cards_new_dirs_not_files:
  "process_cards dumps root cs w = Inr w1 \<Longrightarrow> x \<in> dirs w1 \<Longrightarrow> x \<notin> dirs w \<Longrightarrow> files w x = None"
proof (induction cs arbitrary: w)
  case Nil
  then show ?case by simp
next
  case (Cons c cs)
  from Cons.prems(1) obtain w' where wc: "write_card dumps root c w = Inr w'"
    and rest: "process_cards dumps root cs w' = Inr w1"
    unfolding process_cards_Cons_Inr by blast
  show ?case
  proof (cases "x \<in> dirs w'")
    case True
    with wc Cons.prems(3) show ?thesis by (auto simp: write_card_Inr_iff)
  next
    case False
    with Cons.IH[OF rest Cons.prems(2)] have "files w' x = None" by simp
    with wc show ?thesis by (auto simp: write_card_Inr_iff split: if_splits)
  qed
qed

lemma process_cards_new_files_not_dirs:
  "process_cards dumps root cs w = Inr w1 \<Longrightarrow> files w1 p \<noteq> None \<Longrightarrow> files w p = None \<Longrightarrow> p \<notin> dirs w"
proof (induction cs arbitrary: w)
  case Nil
  then show ?case by simp
next
  case (Cons c cs)
  from Cons.prems(1) obtain w' where wc: "write_card dumps root c w = Inr w'"
    and rest: "process_cards dumps root cs w' = Inr w1"
    unfolding process_cards_Cons_Inr by blast
  show ?case
  proof (cases "files w' p = None")
    case True
    with Cons.IH[OF rest Cons.prems(2)] have "p \<notin> dirs w'" by simp
    with wc show ?thesis by (auto simp: write_card_Inr_iff)
  next
    case False
    with wc Cons.prems(3) show ?thesis by (auto simp: write_card_Inr_iff split: if_splits)
  qed
qed

lemma process_cards_untouched:
  "process_cards dumps root cs w = Inr w1 \<Longrightarrow> \<forall>c \<in> set cs. file_path root c \<noteq> Inr p \<Longrightarrow>
   files w1 p = files w p"
proof (induction cs arbitrary: w)
  case Nil
  then show ?case by simp
next
  case (Cons c cs)
  from Cons.prems(1) obtain w' where wc: "write_card dumps root c w = Inr w'"
    and rest: "process_cards dumps root cs w' = Inr w1"
    unfolding process_cards_Cons_Inr by blast
  from wc Cons.prems(2) have "files w' p = files w p" by (auto simp: write_card_Inr_iff)
  moreover from Cons.prems(2) have "\<forall>c \<in> set cs. file_path root c \<noteq> Inr p" by simp
  ultimately show ?case using Cons.IH[OF rest] by simp
qed

lemma process_cards_stdout:
  "process_cards dumps root cs w = Inr w1 \<Longrightarrow> stdout w1 = stdout w \<and> world.more w1 = world.more w"
proof (induction cs arbitrary: w)
  case Nil
  then show ?case by simp
next
  case (Cons c cs)
  from Cons.prems(1) obtain w' where wc: "write_card dumps root c w = Inr w'"
    and rest: "process_cards dumps root cs w' = Inr w1"
    unfolding process_cards_Cons_Inr by blast
  from wc have "stdout w' = stdout w \<and> world.more w' = world.more w" by (auto simp: write_card_Inr_iff)
  with Cons.IH[OF rest] show ?case by simp
qed

lemma process_cards_replay:
  assumes "process_cards dumps root cs w = Inr w1"
    and "dirs v = dirs w1"
    and "\<forall>p. (files v p \<noteq> None) = (files w1 p \<noteq> None)"
    and "\<forall>p. (\<forall>c \<in> set cs. file_path root c \<noteq> Inr p) \<longrightarrow> files v p = files w1 p"
  shows "process_cards dumps root cs v = Inr (v\<lparr>dirs := dirs w1, files := files w1\<rparr>)"
  using assms
proof (induction cs arbitrary: w v)
  case Nil
  then have "files v = files w1" by auto
  with Nil show ?case by simp
next
  case (Cons c cs)
  from Cons.prems(1) obtain w' where wc: "write_card dumps root c w = Inr w'"
    and rest: "process_cards dumps root cs w' = Inr w1"
    unfolding process_cards_Cons_Inr by blast
  from wc obtain d p where d: "target_dir root c = Inr d" and p: "file_path root c = Inr p"
    and dne: "d \<noteq> []"
    and chain_free: "\<forall>x \<in> set (dir_chain d). files w x = None"
    and p_nd: "p \<notin> dirs w" and p_nc: "p \<notin> set (dir_chain d)"
    and w': "w' = w\<lparr>dirs := dirs w \<union> set (dir_chain d), files := (files w)(p \<mapsto> dumps c 4)\<rparr>"
    unfolding write_card_Inr_iff by blast
  have dirs_w': "dirs w' = dirs w \<union> set (dir_chain d)" and files_w': "files w' = (files w)(p \<mapsto> dumps c 4)"
    by (simp_all add: w')
  have sub: "dirs w' \<subseteq> dirs w1" using rest by (rule process_cards_dirs_mono)
  have chain_v: "\<forall>x \<in> set (dir_chain d). files v x = None"
  proof
    fix x assume x: "x \<in> set (dir_chain d)"
    with chain_free p_nc have "files w' x = None" by (auto simp: files_w')
    moreover from x have "x \<in> dirs w'" by (simp add: dirs_w')
    ultimately have "files w1 x = None"
      using process_cards_new_files_not_dirs[OF rest, of x] by blast
    with Cons.prems(3) show "files v x = None" by blast
  qed
  have p_w1: "files w1 p \<noteq> None"
    using process_cards_files_mono[OF rest, of p] by (simp add: files_w')
  have p_v: "p \<notin> dirs v"
  proof
    assume "p \<in> dirs v"
    then have "p \<in> dirs w1" by (simp add: Cons.prems(2))
    moreover have "p \<notin> dirs w'" using p_nd p_nc by (simp add: dirs_w')
    ultimately have "files w' p = None"
      using process_cards_new_dirs_not_files[OF rest] by blast
    then show False by (simp add: files_w')
  qed
  define v' where "v' = v\<lparr>dirs := dirs v \<union> set (dir_chain d), files := (files v)(p \<mapsto> dumps c 4)\<rparr>"
  have wcv: "write_card dumps root c v = Inr v'"
    unfolding write_card_Inr_iff v'_def using d p dne chain_v p_v p_nc by blast
  have dv': "dirs v' = dirs w1"
    using sub by (auto simp: v'_def Cons.prems(2) dirs_w')
  have fv': "\<forall>q. (files v' q \<noteq> None) = (files w1 q \<noteq> None)"
    using Cons.prems(3) p_w1 by (auto simp: v'_def)
  have uv': "\<forall>q. (\<forall>c \<in> set cs. file_path root c \<noteq> Inr q) \<longrightarrow> files v' q = files w1 q"
  proof (intro allI impI)
    fix q assume q: "\<forall>c \<in> set cs. file_path root c \<noteq> Inr q"
    show "files v' q = files w1 q"
    proof (cases "q = p")
      case True
      have "files w1 p = files w' p" using rest q True by (simp add: process_cards_untouched)
      then show ?thesis using True by (simp add: v'_def files_w')
    next
      case False
      with q p have "\<forall>c \<in> set (c # cs). file_path root c \<noteq> Inr q" by simp
      with Cons.prems(4) have "files v q = files w1 q" by blast
      with False show ?thesis by (simp add: v'_def)
    qed
  qed
  have "process_cards dumps root cs v' = Inr (v'\<lparr>dirs := dirs w1, files := files w1\<rparr>)"
    using rest dv' fv' uv' by (rule Cons.IH)
  with wcv show ?case by (simp add: v'_def)
qed

lemma process_cards_idempotent:
  assumes "process_cards dumps root cs w = Inr w1"
  shows "process_cards dumps root cs w1 = Inr w1"
  using process_cards_replay[OF assms, of w1] by simp


lemma process_cards_append_Inr:
  "process_cards dumps root (xs @ ys) w = Inr w1 \<longleftrightarrow>
     (\<exists>w'. process_cards dumps root xs w = Inr w' \<and> process_cards dumps root ys w' = Inr w1)"
  by (induction xs arbitrary: w) (auto split: sum.splits)

lemma process_cards_last_writer:
  assumes "process_cards dumps root (pre @ c # post) w = Inr w1"
    and "\<forall>c' \<in> set post. file_path root c' \<noteq> file_path root c"
  shows "\<exists>p. file_path root c = Inr p \<and> files w1 p = Some (dumps c 4)"
proof -
  from assms(1) obtain wa wb where "process_cards dumps root pre w = Inr wa"
    and wc: "write_card dumps root c wa = Inr wb"
    and rest: "process_cards dumps root post wb = Inr w1"
    unfolding process_cards_append_Inr process_cards_Cons_Inr by blast
  from wc obtain p where p: "file_path root c = Inr p" and "files wb p = Some (dumps c 4)"
    unfolding write_card_Inr_iff by auto
  moreover from assms(2) p have "\<forall>c' \<in> set post. file_path root c' \<noteq> Inr p" by simp
  with rest have "files w1 p = files wb p" by (rule process_cards_untouched)
  ultimately show ?thesis by simp
qed


lemma path_exists_py_print [simp]: "path_exists p (py_print line w) = path_exists p w"
  by (simp add: path_exists_def py_print_def)

lemma dirs_py_print [simp]: "dirs (py_print line w) = dirs w"
  by (simp add: py_print_def)

lemma files_py_print [simp]: "files (py_print line w) = files w"
  by (simp add: py_print_def)

section \<open>The entry point\<close>

text \<open>
  Claim C7. When the input file does not exist, the entry point returns normally (the
  result is \<open>Inr\<close>, no exception leaves it) in a state that differs from the initial one
  only by the one error line printed: no directory and no file has been created, and the
  result depends on neither the parser nor the serializer, which are never called.
\<close>

theorem missing_input_reports_and_returns:
  "\<not> path_exists input_file w \<longrightarrow>
     organize_scryfall_data loads dumps abspath input_file output_root w
       = Inr (w\<lparr>stdout := stdout w @
                [ascii ''Error: '' @ input_file @
                 ascii '' not found. Please ensure it is in the root directory.'']\<rparr>)
     \<and> (\<exists>w'. organize_scryfall_data loads dumps abspath input_file output_root w = Inr w'
          \<and> dirs w' = dirs w \<and> files w' = files w)"
  by (simp add: organize_scryfall_data_def py_print_def missing_message_def)

theorem missing_input_reports_and_returns_witness:
  "\<not> path_exists (ascii ''oracle-cards.json'') \<lparr>dirs = {}, files = Map.empty, stdout = []\<rparr>
   \<and> organize_scryfall_data (\<lambda>txt. Inr [\<lparr>name = None, colors = None,
          card_faces = (None :: face list option), type_line = None\<rparr>])
        (\<lambda>c i. ascii ''{}'') (\<lambda>p. p)
        (ascii ''oracle-cards.json'') (ascii ''Scryfall_Organized'')
        \<lparr>dirs = {}, files = Map.empty, stdout = []\<rparr>
     = Inr \<lparr>dirs = {}, files = Map.empty,
            stdout = [ascii ''Error: oracle-cards.json not found. Please ensure it is in the root directory.'']\<rparr>"
proof -
  let ?w = "\<lparr>dirs = {}, files = Map.empty, stdout = []\<rparr>"
  have h: "\<not> path_exists (ascii ''oracle-cards.json'') ?w"
    by (simp add: path_exists_def)
  from missing_input_reports_and_returns [of "ascii ''oracle-cards.json''" ?w
      "\<lambda>txt. Inr [\<lparr>name = None, colors = None,
          card_faces = (None :: face list option), type_line = None\<rparr>]"
      "\<lambda>c i. ascii ''{}''" "\<lambda>p. p" "ascii ''Scryfall_Organized''"] h
  show ?thesis
    by (simp add: ascii_def)
qed

section \<open>What the written files hold\<close>




text \<open>
  The example run used below: the array holds the records \<^verbatim>\<open>{"name": "A"}\<close> and
  \<^verbatim>\<open>{"name": "A", "colors": []}\<close>. Both are colorless cards named A without a type
  line, so both go to \<^verbatim>\<open>out/Colorless/Normal/No_Subtype/A.json\<close>. The serializer of the
  example maps each of the two records to the text \<^verbatim>\<open>json.dump\<close> writes for it with
  indent 4 (code point 10 is the line feed) and the parser maps each text back, so the
  library round-trips both records.
\<close>

lemma example_paths:
  "file_path (ascii ''out'') \<lparr>name = Some (ascii ''A''), colors = None,
       card_faces = (None :: face list option), type_line = None\<rparr>
     = Inr (ascii ''out/Colorless/Normal/No_Subtype/A.json'')"
  "file_path (ascii ''out'') \<lparr>name = Some (ascii ''A''), colors = Some [],
       card_faces = (None :: face list option), type_line = None\<rparr>
     = Inr (ascii ''out/Colorless/Normal/No_Subtype/A.json'')"
  "target_dir (ascii ''out'') \<lparr>name = Some (ascii ''A''), colors = None,
       card_faces = (None :: face list option), type_line = None\<rparr>
     = Inr (ascii ''out/Colorless/Normal/No_Subtype'')"
  "target_dir (ascii ''out'') \<lparr>name = Some (ascii ''A''), colors = Some [],
       card_faces = (None :: face list option), type_line = None\<rparr>
     = Inr (ascii ''out/Colorless/Normal/No_Subtype'')"
  "dir_chain (ascii ''out/Colorless/Normal/No_Subtype'')
     = [ascii ''out'', ascii ''out/Colorless'', ascii ''out/Colorless/Normal'',
        ascii ''out/Colorless/Normal/No_Subtype'']"
  by (simp_all add: file_path_def target_dir_def sub_type_folder_def color_folder_def
      colors_list_def super_type_folder_def found_supers_def super_type_list_def dict_get_def
      os_path_join_def join_step_def em_dash_sep_def file_name_def card_name_def
      sanitize_name_def illegal_chars_def dir_chain_def ascii_def)

lemma example_run:
  fixes dumps :: "(face, unit) card_scheme \<Rightarrow> nat \<Rightarrow> pystr"
  assumes "ascii ''out/Colorless/Normal/No_Subtype/A.json'' \<notin> D"
    and "F (ascii ''out'') = None" "F (ascii ''out/Colorless'') = None"
    and "F (ascii ''out/Colorless/Normal'') = None"
    and "F (ascii ''out/Colorless/Normal/No_Subtype'') = None"
  shows "process_cards dumps (ascii ''out'')
     [\<lparr>name = Some (ascii ''A''), colors = None, card_faces = None, type_line = None\<rparr>,
      \<lparr>name = Some (ascii ''A''), colors = Some [], card_faces = None, type_line = None\<rparr>]
     \<lparr>dirs = D, files = F, stdout = S\<rparr>
   = Inr \<lparr>dirs = D \<union> {ascii ''out'', ascii ''out/Colorless'', ascii ''out/Colorless/Normal'',
                    ascii ''out/Colorless/Normal/No_Subtype''},
          files = F(ascii ''out/Colorless/Normal/No_Subtype/A.json'' \<mapsto>
            dumps \<lparr>name = Some (ascii ''A''), colors = Some [], card_faces = None,
                   type_line = None\<rparr> 4),
          stdout = S\<rparr>"
proof -
  have ne: "ascii ''out/Colorless/Normal/No_Subtype'' \<noteq> []"
    and nd: "ascii ''out/Colorless/Normal/No_Subtype/A.json'' \<notin>
        {ascii ''out'', ascii ''out/Colorless'', ascii ''out/Colorless/Normal'',
         ascii ''out/Colorless/Normal/No_Subtype''}"
    and nf: "ascii ''out'' \<noteq> ascii ''out/Colorless/Normal/No_Subtype/A.json''"
      "ascii ''out/Colorless'' \<noteq> ascii ''out/Colorless/Normal/No_Subtype/A.json''"
      "ascii ''out/Colorless/Normal'' \<noteq> ascii ''out/Colorless/Normal/No_Subtype/A.json''"
      "ascii ''out/Colorless/Normal/No_Subtype'' \<noteq> ascii ''out/Colorless/Normal/No_Subtype/A.json''"
    by (simp_all add: ascii_def)
  have fj: "os_path_join (ascii ''out/Colorless/Normal/No_Subtype'')
      [file_name \<lparr>name = Some (ascii ''A''), colors = None,
         card_faces = (None :: face list option), type_line = None\<rparr>]
      = ascii ''out/Colorless/Normal/No_Subtype/A.json''"
    "os_path_join (ascii ''out/Colorless/Normal/No_Subtype'')
      [file_name \<lparr>name = Some (ascii ''A''), colors = Some [],
         card_faces = (None :: face list option), type_line = None\<rparr>]
      = ascii ''out/Colorless/Normal/No_Subtype/A.json''"
    using example_paths(1,2) unfolding file_path_def example_paths(3,4) by simp_all
  show ?thesis
    using assms nd nf ne
    by (simp add: write_card_def example_paths(3,4,5) fj makedirs_def write_file_def
        Un_assoc) blast
qed






section \<open>Running twice\<close>

text \<open>
  Claim C9. If a run of the entry point returns normally and has left its input document
  as it was, a second run on the state the first one leaves also returns normally, and
  the file tree after it is the tree after the first run: the same directories and the
  same files with the same contents (only the printed lines are new). Moreover the
  destination path and the content written for a record are functions of the record (and
  of the output root and the serializer): whatever trees two successful passes over the
  same array start from, they end with the same content at the destination of every
  record.
\<close>

theorem second_run_same_tree:
  "(organize_scryfall_data loads dumps abspath input_file output_root w = Inr w1
      \<and> files w1 input_file = files w input_file \<longrightarrow>
      (\<exists>w2. organize_scryfall_data loads dumps abspath input_file output_root w1 = Inr w2
         \<and> dirs w2 = dirs w1 \<and> files w2 = files w1))
   \<and> (process_cards dumps output_root cards v = Inr v1
      \<and> process_cards dumps output_root cards v' = Inr v1' \<and> c \<in> set cards \<longrightarrow>
      (\<exists>p txt. file_path output_root c = Inr p \<and> files v1 p = Some txt
         \<and> files v1' p = Some txt))"
proof (intro conjI impI)
  assume a: "organize_scryfall_data loads dumps abspath input_file output_root w = Inr w1
      \<and> files w1 input_file = files w input_file"
  show "\<exists>w2. organize_scryfall_data loads dumps abspath input_file output_root w1 = Inr w2
         \<and> dirs w2 = dirs w1 \<and> files w2 = files w1"
  proof (cases "path_exists input_file w")
    case False
    with a have w1: "w1 = py_print (missing_message input_file) w"
      by (simp add: organize_scryfall_data_def)
    with False have "\<not> path_exists input_file w1" by simp
    then show ?thesis
      by (simp add: organize_scryfall_data_def)
  next
    case True
    define wa where "wa = py_print (ascii ''Reading dataset... this may take a moment.'') w"
    from a True obtain content cards wb where rd: "read_file input_file wa = Inr content"
      and ld: "loads content = Inr cards"
      and pc: "process_cards dumps output_root cards wa = Inr wb"
      and w1: "w1 = py_print (ascii ''Success! Data organized into: '' @ abspath output_root) wb"
      by (auto simp: organize_scryfall_data_def Let_def wa_def split: sum.splits)
    from rd have nd: "input_file \<notin> dirs wa" and fa: "files wa input_file = Some content"
      by (auto simp: read_file_def split: if_splits option.splits)
    have nd1: "input_file \<notin> dirs wb"
      using process_cards_new_dirs_not_files[OF pc, of input_file] nd fa by auto
    have f1: "files w1 input_file = Some content"
      using a fa by (simp add: wa_def)
    define wc where "wc = py_print (ascii ''Reading dataset... this may take a moment.'') w1"
    have ex: "path_exists input_file w1"
      using f1 by (simp add: path_exists_def)
    have rd1: "read_file input_file wc = Inr content"
      using nd1 f1 by (simp add: read_file_def wc_def w1)
    have "process_cards dumps output_root cards wc
        = Inr (wc\<lparr>dirs := dirs wb, files := files wb\<rparr>)"
      using pc by (rule process_cards_replay) (simp_all add: wc_def w1)
    moreover have "wc\<lparr>dirs := dirs wb, files := files wb\<rparr> = wc"
      by (simp add: wc_def w1 py_print_def)
    ultimately have pc1: "process_cards dumps output_root cards wc = Inr wc"
      by simp
    have "organize_scryfall_data loads dumps abspath input_file output_root w1
        = Inr (py_print (ascii ''Success! Data organized into: '' @ abspath output_root) wc)"
      using ex rd1 ld pc1 by (simp add: organize_scryfall_data_def Let_def wc_def)
    then show ?thesis
      by (simp add: wc_def)
  qed
next
  assume a: "process_cards dumps output_root cards v = Inr v1
      \<and> process_cards dumps output_root cards v' = Inr v1' \<and> c \<in> set cards"
  obtain p where p: "file_path output_root c = Inr p" using file_path_total by blast
  with a have "\<exists>x \<in> set cards. file_path output_root x = Inr p" by blast
  then obtain pre c' post where split: "cards = pre @ c' # post"
    and c': "file_path output_root c' = Inr p"
    and last: "\<forall>x \<in> set post. file_path output_root x \<noteq> Inr p"
    by (rule split_list_last_propE)
  from last c' have l: "\<forall>x \<in> set post. file_path output_root x \<noteq> file_path output_root c'"
    by simp
  have "files v1 p = Some (dumps c' 4)"
    using process_cards_last_writer[of dumps output_root pre c' post v v1] a split l c'
    by simp
  moreover have "files v1' p = Some (dumps c' 4)"
    using process_cards_last_writer[of dumps output_root pre c' post v' v1'] a split l c'
    by simp
  ultimately show "\<exists>p txt. file_path output_root c = Inr p \<and> files v1 p = Some txt
         \<and> files v1' p = Some txt"
    using p by blast
qed

text \<open>
  The example run through the entry point: the input document is the array of the two
  example records, and the tree is otherwise empty. The second part is instantiated with
  a pass from the empty tree and a pass from a tree that already has the output root and
  an unrelated file.
\<close>

theorem second_run_same_tree_witness:
  \<open>(let c1 = \<lparr>name = Some (ascii ''A''), colors = None,
                card_faces = (None :: face list option), type_line = None\<rparr>;
        c2 = \<lparr>name = Some (ascii ''A''), colors = Some [],
                card_faces = (None :: face list option), type_line = None\<rparr>;
        t1 = ascii ''{'' @ [10] @ ascii ''    "name": "A"'' @ [10] @ ascii ''}'';
        t2 = ascii ''{'' @ [10] @ ascii ''    "name": "A",'' @ [10] @
             ascii ''    "colors": []'' @ [10] @ ascii ''}'';
        dumps = (\<lambda>c i. case colors c of None \<Rightarrow> t1 | Some cs \<Rightarrow> t2);
        loads = (\<lambda>txt. if txt = ascii ''[{"name": "A"}, {"name": "A", "colors": []}]''
                 then Inr [c1, c2] else Inl JSONDecodeError);
        abspath = (\<lambda>p. ascii ''/work/'' @ p);
        w = \<lparr>dirs = {},
              files = [ascii ''oracle-cards.json'' \<mapsto>
                         ascii ''[{"name": "A"}, {"name": "A", "colors": []}]''],
              stdout = []\<rparr>;
        w1 = \<lparr>dirs = {ascii ''out'', ascii ''out/Colorless'', ascii ''out/Colorless/Normal'',
                       ascii ''out/Colorless/Normal/No_Subtype''},
               files = [ascii ''oracle-cards.json'' \<mapsto>
                          ascii ''[{"name": "A"}, {"name": "A", "colors": []}]'',
                        ascii ''out/Colorless/Normal/No_Subtype/A.json'' \<mapsto>
                          t2],
               stdout = [ascii ''Reading dataset... this may take a moment.'',
                         ascii ''Success! Data organized into: '' @ ascii ''/work/'' @ ascii ''out'']\<rparr>;
        v' = \<lparr>dirs = {ascii ''out''}, files = [ascii ''notes.txt'' \<mapsto> ascii ''x''],
               stdout = []\<rparr>
    in organize_scryfall_data loads dumps abspath (ascii ''oracle-cards.json'') (ascii ''out'') w
         = Inr w1
       \<and> files w1 (ascii ''oracle-cards.json'') = files w (ascii ''oracle-cards.json'')
       \<and> (case organize_scryfall_data loads dumps abspath (ascii ''oracle-cards.json'')
                  (ascii ''out'') w1 of
             Inl ew \<Rightarrow> False
           | Inr w2 \<Rightarrow> dirs w2 = dirs w1 \<and> files w2 = files w1)
       \<and> process_cards dumps (ascii ''out'') [c1, c2]
            \<lparr>dirs = {}, files = Map.empty, stdout = []\<rparr>
          = Inr \<lparr>dirs = {ascii ''out'', ascii ''out/Colorless'', ascii ''out/Colorless/Normal'',
                          ascii ''out/Colorless/Normal/No_Subtype''},
                  files = [ascii ''out/Colorless/Normal/No_Subtype/A.json'' \<mapsto>
                             t2],
                  stdout = []\<rparr>
       \<and> process_cards dumps (ascii ''out'') [c1, c2] v'
          = Inr \<lparr>dirs = {ascii ''out'', ascii ''out/Colorless'', ascii ''out/Colorless/Normal'',
                          ascii ''out/Colorless/Normal/No_Subtype''},
                  files = [ascii ''notes.txt'' \<mapsto> ascii ''x'',
                           ascii ''out/Colorless/Normal/No_Subtype/A.json'' \<mapsto>
                             t2],
                  stdout = []\<rparr>
       \<and> c1 \<in> set [c1, c2]
       \<and> file_path (ascii ''out'') c1 = Inr (ascii ''out/Colorless/Normal/No_Subtype/A.json''))\<close>
proof -
  let ?c1 = "\<lparr>name = Some (ascii ''A''), colors = None,
                card_faces = (None :: face list option), type_line = None\<rparr>"
  let ?c2 = "\<lparr>name = Some (ascii ''A''), colors = Some [],
                card_faces = (None :: face list option), type_line = None\<rparr>"
  let ?t1 = \<open>ascii ''{'' @ [10] @ ascii ''    "name": "A"'' @ [10] @ ascii ''}''\<close>
  let ?t2 = \<open>ascii ''{'' @ [10] @ ascii ''    "name": "A",'' @ [10] @
             ascii ''    "colors": []'' @ [10] @ ascii ''}''\<close>
  let ?dumps = "\<lambda>(c :: (face, unit) card_scheme) (i :: nat).
                  case colors c of None \<Rightarrow> ?t1 | Some cs \<Rightarrow> ?t2"
  let ?doc = \<open>ascii ''[{"name": "A"}, {"name": "A", "colors": []}]''\<close>
  let ?loads = \<open>\<lambda>txt. if txt = ?doc then Inr [?c1, ?c2] else Inl JSONDecodeError\<close>
  let ?abspath = "\<lambda>p. ascii ''/work/'' @ p"
  let ?inp = "ascii ''oracle-cards.json''"
  let ?path = "ascii ''out/Colorless/Normal/No_Subtype/A.json''"
  let ?reading = "ascii ''Reading dataset... this may take a moment.''"
  let ?w = "\<lparr>dirs = {}, files = [?inp \<mapsto> ?doc], stdout = []\<rparr>"
  let ?ds = "{ascii ''out'', ascii ''out/Colorless'', ascii ''out/Colorless/Normal'',
                       ascii ''out/Colorless/Normal/No_Subtype''}"
  let ?w1 = \<open>\<lparr>dirs = ?ds,
               files = [?inp \<mapsto> ?doc, ?path \<mapsto> ?t2],
               stdout = [?reading,
                         ascii ''Success! Data organized into: '' @ ascii ''/work/'' @ ascii ''out'']\<rparr>\<close>
  let ?v' = "\<lparr>dirs = {ascii ''out''}, files = [ascii ''notes.txt'' \<mapsto> ascii ''x''],
               stdout = []\<rparr>"
  have pass: \<open>process_cards ?dumps (ascii ''out'') [?c1, ?c2]
        \<lparr>dirs = {}, files = [?inp \<mapsto> ?doc], stdout = [?reading]\<rparr>
      = Inr \<lparr>dirs = ?ds,
              files = [?inp \<mapsto> ?doc, ?path \<mapsto> ?t2],
              stdout = [?reading]\<rparr>\<close>
    using example_run [of "{}" "[?inp \<mapsto> ?doc]" ?dumps "[?reading]"]
    by (simp add: ascii_def)
  have first: "organize_scryfall_data ?loads ?dumps ?abspath ?inp (ascii ''out'') ?w = Inr ?w1"
    by (simp add: organize_scryfall_data_def path_exists_def read_file_def py_print_def pass
        del: process_cards.simps)
  have same: "files ?w1 ?inp = files ?w ?inp"
    by (simp add: ascii_def)
  from second_run_same_tree [of ?loads ?dumps ?abspath ?inp "ascii ''out''" ?w ?w1,
      THEN conjunct1, THEN mp, OF conjI, OF first same]
  obtain w2 where "organize_scryfall_data ?loads ?dumps ?abspath ?inp (ascii ''out'') ?w1 = Inr w2"
    and "dirs w2 = dirs ?w1" and "files w2 = files ?w1"
    by blast
  then have second: "case organize_scryfall_data ?loads ?dumps ?abspath ?inp (ascii ''out'') ?w1 of
             Inl ew \<Rightarrow> False
           | Inr w2 \<Rightarrow> dirs w2 = dirs ?w1 \<and> files w2 = files ?w1"
    by simp
  have p0: \<open>process_cards ?dumps (ascii ''out'') [?c1, ?c2]
        \<lparr>dirs = {}, files = Map.empty, stdout = []\<rparr>
      = Inr \<lparr>dirs = ?ds,
              files = [?path \<mapsto> ?t2],
              stdout = []\<rparr>\<close>
    using example_run [of "{}" Map.empty ?dumps "[]"] by simp
  have e1: "process_cards ?dumps (ascii ''out'') [?c1, ?c2] ?v'
      = Inr \<lparr>dirs = {ascii ''out''} \<union> ?ds,
              files = [ascii ''notes.txt'' \<mapsto> ascii ''x''](?path \<mapsto> ?dumps ?c2 4),
              stdout = []\<rparr>"
    by (rule example_run) (simp_all add: ascii_def)
  have su: "{ascii ''out''} \<union> ?ds = ?ds" by auto
  have dv: \<open>?dumps ?c2 4 = ?t2\<close> by simp
  have p1: \<open>process_cards ?dumps (ascii ''out'') [?c1, ?c2] ?v'
      = Inr \<lparr>dirs = ?ds,
              files = [ascii ''notes.txt'' \<mapsto> ascii ''x'',
                       ?path \<mapsto> ?t2],
              stdout = []\<rparr>\<close>
    using e1 unfolding su dv .
  have mem: "?c1 \<in> set [?c1, ?c2]" by simp
  from first same second p0 p1 mem example_paths(1) show ?thesis
    unfolding Let_def by (intro conjI)
qed

end
